theory Spec2Isabelle
  imports Complex_Main
begin

section \<open>JavaScript values\<close>

text \<open>
  The service is dynamically typed. Where a claim depends on JavaScript's truthiness
  (\<^verbatim>\<open>personData.age || null\<close>) the argument is a \<open>jsval\<close>: the values an age is
  documented to take (a number, \<^verbatim>\<open>null\<close>, \<^verbatim>\<open>undefined\<close>) and the other falsy values
  (\<^verbatim>\<open>false\<close>, \<^verbatim>\<open>NaN\<close>, the empty string), with \<^verbatim>\<open>true\<close>. Numbers are exact rationals:
  every finite JavaScript number is one, and no rounding is modelled. A non-empty
  string, which the library would convert with \<^verbatim>\<open>Number(...)\<close>, and the infinities are
  not values of the model. An optional property that is tested with
  \<^verbatim>\<open>!== undefined\<close> and may also be \<^verbatim>\<open>null\<close> is a \<open>field\<close>.
\<close>

datatype jsval = JUndefined | JNull | JBool bool | JNum rat | JNaN | JEmptyString

fun truthy :: "jsval \<Rightarrow> bool" where
  "truthy JUndefined = False"
| "truthy JNull = False"
| "truthy (JBool b) = b"
| "truthy (JNum n) = (n \<noteq> 0)"
| "truthy JNaN = False"
| "truthy JEmptyString = False"

datatype 'a field = Absent | Null | Val 'a

datatype error =
    Error string
  | PersonNotFound nat
  | ValidationError
  | CastError
  | DuplicateKeyError
  | DocumentNotFoundError
  | ProjectionError

section \<open>Characters and strings\<close>

text \<open>
  A string is a list of code units below 256 (Latin-1); code units from 256 on are not
  values of the model. White space, for \<^verbatim>\<open>trim\<close> and for the pattern class \<^verbatim>\<open>\s\<close>, is
  the tab, the line feed, the vertical tab, the form feed, the carriage return, the
  space and the no-break space U+00A0; the other white space of the language lies
  above 255.
\<close>

definition isSpace :: "char \<Rightarrow> bool" where
  "isSpace c = (c = CHR '' '' \<or> c = CHR 0x09 \<or> c = CHR 0x0A \<or> c = CHR 0x0B
     \<or> c = CHR 0x0C \<or> c = CHR 0x0D \<or> c = CHR 0xA0)"

definition isUpper :: "char \<Rightarrow> bool" where
  "isUpper c = (65 \<le> (of_char c :: nat) \<and> (of_char c :: nat) \<le> 90)"

definition isLower :: "char \<Rightarrow> bool" where
  "isLower c = (97 \<le> (of_char c :: nat) \<and> (of_char c :: nat) \<le> 122)"

definition isDigit :: "char \<Rightarrow> bool" where
  "isDigit c = (48 \<le> (of_char c :: nat) \<and> (of_char c :: nat) \<le> 57)"

definition isAlpha :: "char \<Rightarrow> bool" where
  "isAlpha c = (isUpper c \<or> isLower c)"

text \<open>The regular expression class \<^verbatim>\<open>\w\<close>: letters, digits and the underscore.\<close>

definition isWord :: "char \<Rightarrow> bool" where
  "isWord c = (isAlpha c \<or> isDigit c \<or> c = CHR ''_'')"

text \<open>
  \<^verbatim>\<open>String.prototype.toLowerCase\<close> below 256: the letters A to Z and the accented
  capitals U+00C0 to U+00DE, the multiplication sign U+00D7 apart, move up by 32.
\<close>

definition toLowerChar :: "char \<Rightarrow> char" where
  "toLowerChar c =
     (if isUpper c
         \<or> (192 \<le> (of_char c :: nat) \<and> (of_char c :: nat) \<le> 222 \<and> (of_char c :: nat) \<noteq> 215)
      then char_of ((of_char c :: nat) + 32) else c)"

definition toLowerCase :: "string \<Rightarrow> string" where
  "toLowerCase s = map toLowerChar s"

text \<open>\<^verbatim>\<open>String.prototype.trim\<close>: white space is removed from both ends.\<close>

definition trim :: "string \<Rightarrow> string" where
  "trim s = rev (dropWhile isSpace (rev (dropWhile isSpace s)))"

section \<open>Regular expressions\<close>

text \<open>
  The schema's patterns are anchored at both ends (\<^verbatim>\<open>^...$\<close>), so \<^verbatim>\<open>test\<close> decides
  membership of the whole string in the pattern's language. The matcher takes
  derivatives character by character.
\<close>

datatype charset = WordChar | OneOf "char list"

fun inCharset :: "charset \<Rightarrow> char \<Rightarrow> bool" where
  "inCharset WordChar c = isWord c"
| "inCharset (OneOf cs) c = (c \<in> set cs)"

datatype rexp =
    Zero
  | One
  | Atom charset
  | Alt rexp rexp
  | Seq rexp rexp
  | Star rexp

fun nullable :: "rexp \<Rightarrow> bool" where
  "nullable Zero = False"
| "nullable One = True"
| "nullable (Atom p) = False"
| "nullable (Alt r s) = (nullable r \<or> nullable s)"
| "nullable (Seq r s) = (nullable r \<and> nullable s)"
| "nullable (Star r) = True"

text \<open>
  Smart constructors keep the derivatives small: \<open>Zero\<close> and \<open>One\<close> are absorbed and an
  alternative of two equal expressions is that expression.
\<close>

definition alt :: "rexp \<Rightarrow> rexp \<Rightarrow> rexp" where
  "alt r s = (if r = Zero then s else if s = Zero then r else if r = s then r else Alt r s)"

definition seq :: "rexp \<Rightarrow> rexp \<Rightarrow> rexp" where
  "seq r s = (if r = Zero \<or> s = Zero then Zero else if r = One then s else Seq r s)"

fun deriv :: "char \<Rightarrow> rexp \<Rightarrow> rexp" where
  "deriv c Zero = Zero"
| "deriv c One = Zero"
| "deriv c (Atom p) = (if inCharset p c then One else Zero)"
| "deriv c (Alt r s) = alt (deriv c r) (deriv c s)"
| "deriv c (Seq r s) =
     (if nullable r then alt (seq (deriv c r) s) (deriv c s) else seq (deriv c r) s)"
| "deriv c (Star r) = seq (deriv c r) (Star r)"

fun matches :: "rexp \<Rightarrow> string \<Rightarrow> bool" where
  "matches r [] = nullable r"
| "matches r (c # cs) = matches (deriv c r) cs"

text \<open>
  What the matcher decides: the language of an expression, which is the set of strings
  the anchored JavaScript pattern accepts.
\<close>

definition langSeq :: "string set \<Rightarrow> string set \<Rightarrow> string set" where
  "langSeq A B = {u @ v | u v. u \<in> A \<and> v \<in> B}"

inductive_set langStar :: "string set \<Rightarrow> string set" for A :: "string set" where
  none: "[] \<in> langStar A"
| more: "u \<in> A \<Longrightarrow> v \<in> langStar A \<Longrightarrow> u @ v \<in> langStar A"

fun lang :: "rexp \<Rightarrow> string set" where
  "lang Zero = {}"
| "lang One = {[]}"
| "lang (Atom p) = {[c] | c. inCharset p c}"
| "lang (Alt r s) = lang r \<union> lang s"
| "lang (Seq r s) = langSeq (lang r) (lang s)"
| "lang (Star r) = langStar (lang r)"

definition afterChar :: "char \<Rightarrow> string set \<Rightarrow> string set" where
  "afterChar c L = {s. c # s \<in> L}"

definition rplus :: "rexp \<Rightarrow> rexp" where
  "rplus r = Seq r (Star r)"

definition ropt :: "rexp \<Rightarrow> rexp" where
  "ropt r = Alt One r"

text \<open>
  \<^verbatim>\<open>/^\w+([\.-]?\w+)*@\w+([\.-]?\w+)*(\.\w{2,3})+$/\<close>, the pattern of the schema's
  \<^verbatim>\<open>email.match\<close>.
\<close>

definition emailRegex :: rexp where
  "emailRegex =
     (let w = Atom WordChar;
          sep = Atom (OneOf ''.-'');
          part = Seq (rplus w) (Star (Seq (ropt sep) (rplus w)))
      in Seq part (Seq (Atom (OneOf ''@''))
           (Seq part (rplus (Seq (Atom (OneOf ''.'')) (Seq w (Seq w (ropt w))))))))"

section \<open>The Person schema (src/models/Person.js)\<close>

text \<open>
  A stored document. \<open>oid\<close> is the \<^verbatim>\<open>_id\<close> the client generates; \<open>age\<close> is \<open>None\<close> for
  \<^verbatim>\<open>null\<close> (the schema's default); \<open>email\<close> has no default, so the property may be
  missing from a document, \<^verbatim>\<open>null\<close>, or a string. The two timestamps are left out: no
  property stated below reads them.
\<close>

record person =
  oid :: nat
  name :: string
  age :: "rat option"
  favoriteFoods :: "string list"
  email :: "string field"
  isActive :: bool

text \<open>The custom validator of \<open>name\<close>: \<^verbatim>\<open>/^[a-zA-Z\s]{2,100}$/.test(v)\<close>.\<close>

definition nameValidator :: "string \<Rightarrow> bool" where
  "nameValidator v =
     (2 \<le> length v \<and> length v \<le> 100 \<and> list_all (\<lambda>c. isAlpha c \<or> isSpace c) v)"

text \<open>\<open>name\<close>: \<^verbatim>\<open>required\<close>, \<^verbatim>\<open>minlength: 2\<close>, \<^verbatim>\<open>maxlength: 100\<close> and the custom validator.\<close>

definition validateName :: "string \<Rightarrow> bool" where
  "validateName v = (v \<noteq> [] \<and> 2 \<le> length v \<and> length v \<le> 100 \<and> nameValidator v)"

text \<open>\<open>age\<close>: \<^verbatim>\<open>min: 0\<close> and \<^verbatim>\<open>max: 120\<close>; both accept \<^verbatim>\<open>null\<close>.\<close>

definition validateAge :: "rat option \<Rightarrow> bool" where
  "validateAge a = (case a of None \<Rightarrow> True | Some n \<Rightarrow> 0 \<le> n \<and> n \<le> 120)"

text \<open>
  \<open>favoriteFoods\<close>: every item has \<^verbatim>\<open>minlength: 2\<close> and \<^verbatim>\<open>maxlength: 50\<close>, and the array's
  validator is \<^verbatim>\<open>array.length <= 20\<close>.
\<close>

definition validateFoods :: "string list \<Rightarrow> bool" where
  "validateFoods fs =
     (list_all (\<lambda>f. 2 \<le> length f \<and> length f \<le> 50) fs \<and> length fs \<le> 20)"

text \<open>\<open>email\<close>: \<^verbatim>\<open>match\<close>, which the library skips for \<^verbatim>\<open>null\<close> and for the empty string.\<close>

definition validateEmail :: "string field \<Rightarrow> bool" where
  "validateEmail e =
     (case e of Val s \<Rightarrow> s = [] \<or> matches emailRegex s | Null \<Rightarrow> True | Absent \<Rightarrow> True)"

definition validate :: "person \<Rightarrow> bool" where
  "validate p =
     (validateName (name p) \<and> validateAge (age p) \<and> validateFoods (favoriteFoods p)
      \<and> validateEmail (email p))"

subsection \<open>Setters and casts applied when a path is set\<close>

text \<open>\<open>email\<close> has \<^verbatim>\<open>lowercase: true\<close> and \<^verbatim>\<open>trim: true\<close>.\<close>

definition setEmail :: "string \<Rightarrow> string" where
  "setEmail s = toLowerCase (trim s)"

text \<open>
  The library's cast of a value set on a \<^verbatim>\<open>Number\<close> path: \<^verbatim>\<open>null\<close>, \<^verbatim>\<open>undefined\<close> and the
  empty string give \<^verbatim>\<open>null\<close>, a boolean goes through \<^verbatim>\<open>Number(...)\<close>, and \<^verbatim>\<open>NaN\<close> is a
  cast error.
\<close>

fun castNumber :: "jsval \<Rightarrow> error + rat option" where
  "castNumber JUndefined = Inr None"
| "castNumber JNull = Inr None"
| "castNumber (JNum n) = Inr (Some n)"
| "castNumber JNaN = Inl CastError"
| "castNumber (JBool b) = Inr (Some (if b then 1 else 0))"
| "castNumber JEmptyString = Inr None"

text \<open>The plain object handed to \<^verbatim>\<open>new Person(...)\<close> or to \<^verbatim>\<open>Person.create\<close>.\<close>

record personData =
  pd_name :: "string option"
  pd_age :: jsval
  pd_favoriteFoods :: "string list option"
  pd_email :: "string field"
  pd_isActive :: "bool option"

text \<open>
  \<^verbatim>\<open>new Person(obj)\<close> with the \<^verbatim>\<open>_id\<close> \<open>i\<close>: setters (\<^verbatim>\<open>trim\<close>, \<^verbatim>\<open>lowercase\<close>), casts
  and defaults. A missing name and an age that does not cast are reported by the
  library when the document is validated on save; every caller saves the document
  right after building it, so they are reported here as the validation error they
  become.
\<close>

definition newPerson :: "nat \<Rightarrow> personData \<Rightarrow> error + person" where
  "newPerson i obj =
     (case pd_name obj of
        None \<Rightarrow> Inl ValidationError
      | Some n \<Rightarrow>
          (case castNumber (pd_age obj) of
             Inl e \<Rightarrow> Inl ValidationError
           | Inr a \<Rightarrow>
               Inr \<lparr> oid = i,
                     name = trim n,
                     age = a,
                     favoriteFoods =
                       (case pd_favoriteFoods obj of None \<Rightarrow> [] | Some fs \<Rightarrow> map trim fs),
                     email =
                       (case pd_email obj of
                          Val s \<Rightarrow> Val (setEmail s) | Null \<Rightarrow> Null | Absent \<Rightarrow> Absent),
                     isActive = (case pd_isActive obj of None \<Rightarrow> True | Some b \<Rightarrow> b) \<rparr>))"

section \<open>The collection and the library calls the service makes\<close>

text \<open>
  The state is the collection in its natural (insertion) order and the next
  \<^verbatim>\<open>_id\<close> the client will generate. The service calls the object-document mapper
  with callbacks; the calls are modelled by what that library and the database behind
  it do to this state: setters and casts when a path is set or a condition is cast,
  validation before a write, the unique index on \<open>email\<close>, filters, the first match
  of a find-one, the server's check of a projection. One call runs at a time: what
  concurrent calls do to each other is not modelled.
\<close>

record db =
  docs :: "person list"
  nextId :: nat

definition emptyDb :: db where
  "emptyDb = \<lparr> docs = [], nextId = 0 \<rparr>"

text \<open>
  The index on \<open>email\<close> is \<^verbatim>\<open>unique\<close> and \<^verbatim>\<open>sparse\<close>: a document without the property is
  not indexed; one that has it (a string, or an explicit \<^verbatim>\<open>null\<close>) is, and a write
  that would give two documents the same indexed value is refused.
\<close>

definition duplicateEmail :: "person \<Rightarrow> person list \<Rightarrow> bool" where
  "duplicateEmail p ds =
     (email p \<noteq> Absent \<and> list_ex (\<lambda>d. oid d \<noteq> oid p \<and> email d = email p) ds)"

text \<open>\<^verbatim>\<open>doc.save()\<close> of a new document: validate, then insert.\<close>

definition saveNew :: "person \<Rightarrow> db \<Rightarrow> (error + person) \<times> db" where
  "saveNew p st =
     (if \<not> validate p then (Inl ValidationError, st)
      else if duplicateEmail p (docs st) then (Inl DuplicateKeyError, st)
      else (Inr p, st\<lparr>docs := docs st @ [p]\<rparr>))"

text \<open>\<^verbatim>\<open>doc.save()\<close> of a document that was loaded from the collection.\<close>

definition save :: "person \<Rightarrow> db \<Rightarrow> (error + person) \<times> db" where
  "save p st =
     (if \<not> validate p then (Inl ValidationError, st)
      else if \<not> list_ex (\<lambda>d. oid d = oid p) (docs st) then (Inl DocumentNotFoundError, st)
      else if duplicateEmail p (docs st) then (Inl DuplicateKeyError, st)
      else (Inr p, st\<lparr>docs := map (\<lambda>d. if oid d = oid p then p else d) (docs st)\<rparr>))"

text \<open>\<^verbatim>\<open>new Person(obj).save()\<close>; the \<^verbatim>\<open>_id\<close> is taken when the document is built.\<close>

definition createOne :: "personData \<Rightarrow> db \<Rightarrow> (error + person) \<times> db" where
  "createOne obj st =
     (let st1 = st\<lparr>nextId := Suc (nextId st)\<rparr> in
      case newPerson (nextId st) obj of
        Inl e \<Rightarrow> (Inl e, st1)
      | Inr p \<Rightarrow> saveNew p st1)"

text \<open>
  \<^verbatim>\<open>Person.create(array)\<close>: a document is built and saved for every element, whether
  or not another one fails; the result is the first error, if there is one, and the
  saved documents otherwise. The library starts the saves together, so the order in
  which the documents are stored, and which of several errors is reported, is not
  fixed by the code; here the saves run in the order of the array. Which documents are
  stored does not depend on it unless two of them share an email.
\<close>

fun Model_create :: "personData list \<Rightarrow> db \<Rightarrow> (error + person list) \<times> db" where
  "Model_create [] st = (Inr [], st)"
| "Model_create (obj # objs) st =
     (case createOne obj st of
        (r, st1) \<Rightarrow>
          (case Model_create objs st1 of
             (rs, st2) \<Rightarrow>
               ((case r of
                   Inl e \<Rightarrow> Inl e
                 | Inr p \<Rightarrow> (case rs of Inl e \<Rightarrow> Inl e | Inr ps \<Rightarrow> Inr (p # ps))),
                st2)))"

text \<open>
  Query conditions. The library casts a condition with the schema of its path, which
  runs the path's setters: a name and a food are trimmed before they are compared.
\<close>

datatype filter = FAll | FName string | FFood string | FActive bool

fun matchesFilter :: "filter \<Rightarrow> person \<Rightarrow> bool" where
  "matchesFilter FAll p = True"
| "matchesFilter (FName n) p = (name p = trim n)"
| "matchesFilter (FFood f) p = (trim f \<in> set (favoriteFoods p))"
| "matchesFilter (FActive b) p = (isActive p = b)"

definition Model_find :: "filter \<Rightarrow> db \<Rightarrow> person list" where
  "Model_find f st = filter (matchesFilter f) (docs st)"

definition Model_findOne :: "filter \<Rightarrow> db \<Rightarrow> person option" where
  "Model_findOne f st = find (matchesFilter f) (docs st)"

definition Model_findById :: "nat \<Rightarrow> db \<Rightarrow> person option" where
  "Model_findById i st = find (\<lambda>p. oid p = i) (docs st)"

definition Model_countDocuments :: "filter \<Rightarrow> db \<Rightarrow> nat" where
  "Model_countDocuments f st = length (Model_find f st)"

record deleteResult =
  deletedCount :: nat

definition Model_deleteMany :: "filter \<Rightarrow> db \<Rightarrow> deleteResult \<times> db" where
  "Model_deleteMany f st =
     (\<lparr> deletedCount = length (filter (matchesFilter f) (docs st)) \<rparr>,
      st\<lparr>docs := filter (\<lambda>p. \<not> matchesFilter f p) (docs st)\<rparr>)"

definition Model_findByIdAndRemove :: "nat \<Rightarrow> db \<Rightarrow> person option \<times> db" where
  "Model_findByIdAndRemove i st =
     (case Model_findById i st of
        None \<Rightarrow> (None, st)
      | Some p \<Rightarrow> (Some p, st\<lparr>docs := filter (\<lambda>d. oid d \<noteq> i) (docs st)\<rparr>))"

text \<open>
  \<^verbatim>\<open>Person.findOneAndUpdate({ name }, { age }, { new: true, runValidators: true })\<close>:
  the update is cast and validated against the schema before the query runs; the first
  document that matches gets the new age and is returned as it is after the update.
\<close>

fun setAgeOfFirst :: "string \<Rightarrow> rat option \<Rightarrow> person list \<Rightarrow> person list" where
  "setAgeOfFirst n a [] = []"
| "setAgeOfFirst n a (p # ps) =
     (if matchesFilter (FName n) p then p\<lparr>age := a\<rparr> # ps else p # setAgeOfFirst n a ps)"

definition Model_findOneAndUpdate_age ::
  "string \<Rightarrow> jsval \<Rightarrow> db \<Rightarrow> (error + person option) \<times> db" where
  "Model_findOneAndUpdate_age n v st =
     (case castNumber v of
        Inl e \<Rightarrow> (Inl CastError, st)
      | Inr a \<Rightarrow>
          if \<not> validateAge a then (Inl ValidationError, st)
          else (case Model_findOne (FName n) st of
                  None \<Rightarrow> (Inr None, st)
                | Some p \<Rightarrow>
                    (Inr (Some (p\<lparr>age := a\<rparr>)), st\<lparr>docs := setAgeOfFirst n a (docs st)\<rparr>)))"

subsection \<open>Chained queries\<close>

text \<open>
  \<^verbatim>\<open>Person.find(cond)\<close> without a callback gives a query object; \<^verbatim>\<open>sort\<close>, \<^verbatim>\<open>limit\<close>
  and \<^verbatim>\<open>select\<close> record their argument in it and \<^verbatim>\<open>exec\<close> sends it. The projection
  is a list of paths, each marked included or excluded, in the order the paths were
  first selected (a JavaScript object's keys).
\<close>

datatype sortOrder = Unsorted | NameAscending

record query =
  q_conditions :: filter
  q_sort :: sortOrder
  q_limit :: "nat option"
  q_fields :: "(string \<times> bool) list"

definition Model_find_query :: "filter \<Rightarrow> query" where
  "Model_find_query f = \<lparr> q_conditions = f, q_sort = Unsorted, q_limit = None, q_fields = [] \<rparr>"

definition Query_sort :: "sortOrder \<Rightarrow> query \<Rightarrow> query" where
  "Query_sort s q = q\<lparr>q_sort := s\<rparr>"

definition Query_limit :: "nat \<Rightarrow> query \<Rightarrow> query" where
  "Query_limit n q = q\<lparr>q_limit := Some n\<rparr>"

text \<open>\<^verbatim>\<open>arg.split(/\s+/)\<close>, up to empty pieces, which \<^verbatim>\<open>select\<close> skips.\<close>

fun splitSpaces :: "string \<Rightarrow> string \<Rightarrow> string list" where
  "splitSpaces cur [] = [rev cur]"
| "splitSpaces cur (c # cs) =
     (if isSpace c then rev cur # splitSpaces [] cs else splitSpaces (c # cur) cs)"

fun setField :: "string \<Rightarrow> bool \<Rightarrow> (string \<times> bool) list \<Rightarrow> (string \<times> bool) list" where
  "setField k v [] = [(k, v)]"
| "setField k v ((k', v') # fs) =
     (if k' = k then (k, v) # fs else (k', v') # setField k v fs)"

text \<open>
  \<^verbatim>\<open>select(string)\<close>: a piece \<^verbatim>\<open>-path\<close> marks the path excluded, every other piece
  marks it included. The repository pins no release of the library, and the releases
  that accept the service's callbacks differ in what a later \<^verbatim>\<open>select\<close> does:
  \<^item> the earlier ones (\<open>AddingSelect\<close>) add its marks to those already there;
  \<^item> the later ones (\<open>OverridingSelect\<close>) keep an including projection including and
    an excluding one excluding: a mark of the projection's own kind is added, a mark of
    the other kind removes the path (and the paths below it) from the projection and
    adds nothing. Marks are added as they come as long as the projection is empty.
\<close>

datatype selectRule = AddingSelect | OverridingSelect

definition selectMark :: "string \<Rightarrow> string \<times> bool" where
  "selectMark piece =
     (case piece of
        [] \<Rightarrow> (piece, True)
      | c # rest \<Rightarrow> if c = CHR ''-'' then (rest, False) else (piece, True))"

definition isSubpath :: "string \<Rightarrow> string \<Rightarrow> bool" where
  "isSubpath k f = (f = k \<or> take (Suc (length k)) f = k @ ''.'')"

text \<open>
  The kind of a projection, read once when \<^verbatim>\<open>select\<close> is called: including when a
  path is marked included, excluding when paths are marked and none is included.
\<close>

definition selectedInclusively :: "(string \<times> bool) list \<Rightarrow> bool" where
  "selectedInclusively fs = list_ex snd fs"

definition selectPiece ::
  "selectRule \<Rightarrow> bool option \<Rightarrow> (string \<times> bool) list \<Rightarrow> string \<Rightarrow> (string \<times> bool) list" where
  "selectPiece rule kind fs piece =
     (if piece = [] then fs
      else
        let k = fst (selectMark piece); v = snd (selectMark piece) in
        case (rule, kind) of
          (OverridingSelect, Some inclusive) \<Rightarrow>
            if v = inclusive then setField k v fs
            else filter (\<lambda>kv. \<not> isSubpath k (fst kv)) fs
        | (OverridingSelect, None) \<Rightarrow> setField k v fs
        | (AddingSelect, _) \<Rightarrow> setField k v fs)"

definition Query_select :: "selectRule \<Rightarrow> string \<Rightarrow> query \<Rightarrow> query" where
  "Query_select rule arg q =
     (if arg = [] then q
      else
        let kind = (if q_fields q = [] then None else Some (selectedInclusively (q_fields q)))
        in q\<lparr>q_fields := foldl (selectPiece rule kind) (q_fields q) (splitSpaces [] arg)\<rparr>)"

text \<open>
  The server refuses a projection that both includes and excludes paths, \<^verbatim>\<open>_id\<close>
  apart.
\<close>

definition mixedProjection :: "(string \<times> bool) list \<Rightarrow> bool" where
  "mixedProjection fs =
     (list_ex (\<lambda>kv. fst kv \<noteq> ''_id'' \<and> snd kv) fs \<and> list_ex (\<lambda>kv. fst kv \<noteq> ''_id'' \<and> \<not> snd kv) fs)"

text \<open>
  A document as a query returns it: \<^verbatim>\<open>_id\<close> and the selected paths. With no
  projection every path is selected; an including projection selects the paths it
  names; an excluding one selects the others.
\<close>

record projected =
  p_oid :: nat
  p_name :: "string option"
  p_age :: "rat option option"
  p_favoriteFoods :: "string list option"
  p_email :: "string field option"
  p_isActive :: "bool option"

definition selected :: "(string \<times> bool) list \<Rightarrow> string \<Rightarrow> bool" where
  "selected fs k =
     (if list_ex (\<lambda>kv. fst kv \<noteq> ''_id'' \<and> snd kv) fs then (k, True) \<in> set fs
      else (k, False) \<notin> set fs)"

definition project :: "(string \<times> bool) list \<Rightarrow> person \<Rightarrow> projected" where
  "project fs p =
     \<lparr> p_oid = oid p,
       p_name = (if selected fs ''name'' then Some (name p) else None),
       p_age = (if selected fs ''age'' then Some (age p) else None),
       p_favoriteFoods =
         (if selected fs ''favoriteFoods'' then Some (favoriteFoods p) else None),
       p_email = (if selected fs ''email'' then Some (email p) else None),
       p_isActive = (if selected fs ''isActive'' then Some (isActive p) else None) \<rparr>"

text \<open>Strings are compared by their character codes, as the server's default does.\<close>

fun stringLe :: "string \<Rightarrow> string \<Rightarrow> bool" where
  "stringLe [] t = True"
| "stringLe (c # s) [] = False"
| "stringLe (c # s) (d # t) =
     ((of_char c :: nat) < of_char d \<or> (c = d \<and> stringLe s t))"

fun insertByName :: "person \<Rightarrow> person list \<Rightarrow> person list" where
  "insertByName p [] = [p]"
| "insertByName p (d # ds) =
     (if stringLe (name p) (name d) then p # d # ds else d # insertByName p ds)"

definition sortDocs :: "sortOrder \<Rightarrow> person list \<Rightarrow> person list" where
  "sortDocs s ds = (case s of Unsorted \<Rightarrow> ds | NameAscending \<Rightarrow> foldr insertByName ds [])"

definition Query_exec :: "query \<Rightarrow> db \<Rightarrow> error + projected list" where
  "Query_exec q st =
     (if mixedProjection (q_fields q) then Inl ProjectionError
      else
        let found = sortDocs (q_sort q) (Model_find (q_conditions q) st);
            limited = (case q_limit q of None \<Rightarrow> found | Some n \<Rightarrow> take n found)
        in Inr (map (project (q_fields q)) limited))"

subsection \<open>Aggregation\<close>

text \<open>
  \<^verbatim>\<open>[{ $match: { age: { $ne: null } } }, { $group: { _id: null, avgAge: { $avg: "$age" } } }]\<close>:
  no group when no document passes the match, otherwise one group with the mean. The
  mean is the exact quotient; the server returns the double next to it, which is the
  same number whenever the quotient is a double, as 34.5 is.
\<close>

definition Model_aggregate_avgAge :: "db \<Rightarrow> rat list" where
  "Model_aggregate_avgAge st =
     (let ages = List.map_filter age (docs st) in
      if ages = [] then [] else [sum_list ages / of_nat (length ages)])"

section \<open>Instance methods of the model (src/models/Person.js)\<close>

definition addFavoriteFood :: "person \<Rightarrow> string \<Rightarrow> db \<Rightarrow> (error + person) \<times> db" where
  "addFavoriteFood this food st =
     (if food \<notin> set (favoriteFoods this)
      then save (this\<lparr>favoriteFoods := favoriteFoods this @ [trim food]\<rparr>) st
      else (Inr this, st))"

definition removeFavoriteFood :: "person \<Rightarrow> string \<Rightarrow> db \<Rightarrow> (error + person) \<times> db" where
  "removeFavoriteFood this food st =
     (if food \<in> set (favoriteFoods this)
      then save (this\<lparr>favoriteFoods := remove1 food (favoriteFoods this)\<rparr>) st
      else (Inr this, st))"

section \<open>The service (src/services/personService.js)\<close>

text \<open>
  Every method is an \<^verbatim>\<open>async\<close> function: a \<^verbatim>\<open>throw\<close> in it and a \<^verbatim>\<open>reject\<close> of the
  promise it returns both reject the caller's promise (\<open>Inl\<close>); \<^verbatim>\<open>resolve\<close> is \<open>Inr\<close>.
  A method that writes returns the state after it.
\<close>

definition createAndSavePerson :: "personData \<Rightarrow> db \<Rightarrow> (error + person) \<times> db" where
  "createAndSavePerson personData st =
     (if pd_name personData = None \<or> pd_name personData = Some []
      then (Inl (Error ''Name is required to create a person''), st)
      else createOne
        \<lparr> pd_name = pd_name personData,
          pd_age = (if truthy (pd_age personData) then pd_age personData else JNull),
          pd_favoriteFoods =
            Some (case pd_favoriteFoods personData of None \<Rightarrow> [] | Some fs \<Rightarrow> fs),
          pd_email =
            (case pd_email personData of
               Val s \<Rightarrow> if s = [] then Null else Val s | Null \<Rightarrow> Null | Absent \<Rightarrow> Null),
          pd_isActive =
            Some (case pd_isActive personData of None \<Rightarrow> True | Some b \<Rightarrow> b) \<rparr> st)"

definition createManyPeople :: "personData list \<Rightarrow> db \<Rightarrow> (error + person list) \<times> db" where
  "createManyPeople arrayOfPeople st =
     (if arrayOfPeople = [] then (Inl (Error ''arrayOfPeople must be a non-empty array''), st)
      else Model_create arrayOfPeople st)"

definition findPeopleByName :: "string \<Rightarrow> db \<Rightarrow> error + person list" where
  "findPeopleByName n st =
     (if n = [] then Inl (Error ''Valid name string is required'')
      else Inr (Model_find (FName n) st))"

definition findOneByFood :: "string \<Rightarrow> db \<Rightarrow> error + person option" where
  "findOneByFood food st =
     (if food = [] then Inl (Error ''Valid food string is required'')
      else Inr (Model_findOne (FFood food) st))"

text \<open>An id argument is \<open>None\<close> when the caller passes nothing (or another falsy value).\<close>

definition findPersonById :: "nat option \<Rightarrow> db \<Rightarrow> error + person option" where
  "findPersonById personId st =
     (case personId of
        None \<Rightarrow> Inl (Error ''personId is required'')
      | Some i \<Rightarrow> Inr (Model_findById i st))"

text \<open>
  The \<^verbatim>\<open>updates\<close> object of \<^verbatim>\<open>updatePersonClassic\<close>: \<open>u_age = JUndefined\<close>,
  \<open>u_email = Absent\<close> and \<open>None\<close> elsewhere stand for a property that is not given.
\<close>

record updates =
  u_name :: "string option"
  u_age :: jsval
  u_email :: "string field"
  u_isActive :: "bool option"
  u_addToFavorites :: "string list option"

text \<open>
  The \<^verbatim>\<open>forEach\<close> over \<^verbatim>\<open>updates.addToFavorites\<close>: a food the array does not include is
  pushed; the array casts what is pushed with the item's schema (\<^verbatim>\<open>trim\<close>).
\<close>

fun addToFavorites :: "string list \<Rightarrow> string list \<Rightarrow> string list" where
  "addToFavorites foods [] = foods"
| "addToFavorites foods (food # rest) =
     addToFavorites (if food \<notin> set foods then foods @ [trim food] else foods) rest"

text \<open>
  Step 2 of \<^verbatim>\<open>updatePersonClassic\<close>, on the document in memory. An age that does not
  cast makes the later \<^verbatim>\<open>save\<close> fail validation.
\<close>

definition applyUpdates :: "person \<Rightarrow> updates \<Rightarrow> error + person" where
  "applyUpdates person u =
     (let p1 = (case u_name u of
                  None \<Rightarrow> person
                | Some n \<Rightarrow> if n \<noteq> [] then person\<lparr>name := trim n\<rparr> else person)
      in case (if u_age u \<noteq> JUndefined then castNumber (u_age u) else Inr (age p1)) of
           Inl e \<Rightarrow> Inl ValidationError
         | Inr a \<Rightarrow>
             Inr (p1\<lparr> age := a,
                      email := (case u_email u of
                                  Absent \<Rightarrow> email p1 | Null \<Rightarrow> Null | Val s \<Rightarrow> Val (setEmail s)),
                      isActive := (case u_isActive u of None \<Rightarrow> isActive p1 | Some b \<Rightarrow> b),
                      favoriteFoods :=
                        (case u_addToFavorites u of
                           None \<Rightarrow> favoriteFoods p1
                         | Some foods \<Rightarrow> addToFavorites (favoriteFoods p1) foods) \<rparr>))"

definition updatePersonClassic ::
  "nat option \<Rightarrow> updates \<Rightarrow> db \<Rightarrow> (error + person) \<times> db" where
  "updatePersonClassic personId u st =
     (case personId of
        None \<Rightarrow> (Inl (Error ''personId is required''), st)
      | Some i \<Rightarrow>
          (case Model_findById i st of
             None \<Rightarrow> (Inl (PersonNotFound i), st)
           | Some person \<Rightarrow>
               (case applyUpdates person u of
                  Inl e \<Rightarrow> (Inl e, st)
                | Inr person' \<Rightarrow> save person' st)))"

definition addHamburgerToFavorites :: "nat option \<Rightarrow> db \<Rightarrow> (error + person) \<times> db" where
  "addHamburgerToFavorites personId st =
     updatePersonClassic personId
       \<lparr> u_name = None, u_age = JUndefined, u_email = Absent, u_isActive = None,
         u_addToFavorites = Some [''hamburger''] \<rparr> st"

text \<open>\<^verbatim>\<open>newAge = 20\<close> is a default parameter: it replaces \<^verbatim>\<open>undefined\<close> only.\<close>

definition findOneAndUpdateAge ::
  "string \<Rightarrow> jsval \<Rightarrow> db \<Rightarrow> (error + person option) \<times> db" where
  "findOneAndUpdateAge personName newAge st =
     (if personName = [] then (Inl (Error ''personName is required''), st)
      else Model_findOneAndUpdate_age personName
             (if newAge = JUndefined then JNum 20 else newAge) st)"

definition deletePersonById :: "nat option \<Rightarrow> db \<Rightarrow> (error + person option) \<times> db" where
  "deletePersonById personId st =
     (case personId of
        None \<Rightarrow> (Inl (Error ''personId is required''), st)
      | Some i \<Rightarrow> (case Model_findByIdAndRemove i st of (r, st1) \<Rightarrow> (Inr r, st1)))"

definition deleteManyByName :: "string \<Rightarrow> db \<Rightarrow> (error + deleteResult) \<times> db" where
  "deleteManyByName n st =
     (if n = [] then (Inl (Error ''Name is required for deletion''), st)
      else (case Model_deleteMany (FName n) st of (r, st1) \<Rightarrow> (Inr r, st1)))"

text \<open>
  \<^verbatim>\<open>food = "burrito"\<close> is a default parameter; \<open>None\<close> is a call without argument. The
  first argument is the rule of the library release in use.
\<close>

definition findBurritoLovers ::
  "selectRule \<Rightarrow> string option \<Rightarrow> db \<Rightarrow> error + projected list" where
  "findBurritoLovers rule food st =
     (let f = (case food of None \<Rightarrow> ''burrito'' | Some s \<Rightarrow> s) in
      Query_exec
        (Query_select rule ''name favoriteFoods''
          (Query_select rule ''-age''
            (Query_limit 2
              (Query_sort NameAscending
                (Model_find_query (FFood f)))))) st)"

definition getAllPeople :: "db \<Rightarrow> error + person list" where
  "getAllPeople st = Inr (Model_find FAll st)"

record stats =
  totalPeople :: nat
  activePeople :: nat
  averageAge :: rat

text \<open>\<^verbatim>\<open>averageAge[0]?.avgAge || 0\<close>: 0 when there is no group, and when the mean is 0.\<close>

definition getStats :: "db \<Rightarrow> stats" where
  "getStats st =
     \<lparr> totalPeople = Model_countDocuments FAll st,
       activePeople = Model_countDocuments (FActive True) st,
       averageAge =
         (case Model_aggregate_avgAge st of
            [] \<Rightarrow> 0
          | avgAge # _ \<Rightarrow> if avgAge \<noteq> 0 then avgAge else 0) \<rparr>"

section \<open>The seed script (src/seed.js) and the demo (src/index.js)\<close>

definition sample :: "string \<Rightarrow> rat \<Rightarrow> string list \<Rightarrow> string \<Rightarrow> bool \<Rightarrow> personData" where
  "sample n a foods e act =
     \<lparr> pd_name = Some n, pd_age = JNum a, pd_favoriteFoods = Some foods, pd_email = Val e,
       pd_isActive = Some act \<rparr>"

definition samplePeople :: "personData list" where
  "samplePeople =
     [ sample ''John Smith'' 28 [''pizza'', ''burgers'', ''pasta''] ''john.smith@example.com'' True,
       sample ''Emma Johnson'' 32 [''sushi'', ''salad'', ''burrito''] ''emma.johnson@example.com'' True,
       sample ''Michael Brown'' 45 [''steak'', ''potatoes'', ''burrito''] ''michael.brown@example.com'' True,
       sample ''Sarah Davis'' 22 [''tacos'', ''ice cream'', ''pizza''] ''sarah.davis@example.com'' True,
       sample ''Robert Wilson'' 38 [''chicken'', ''rice'', ''vegetables''] ''robert.wilson@example.com'' False,
       sample ''Mary Thompson'' 29 [''pasta'', ''wine'', ''cheese''] ''mary.thompson@example.com'' True,
       sample ''David Miller'' 51 [''seafood'', ''soup'', ''bread''] ''david.miller@example.com'' True,
       sample ''Lisa Anderson'' 26 [''burrito'', ''nachos'', ''guacamole''] ''lisa.anderson@example.com'' True,
       sample ''James Taylor'' 33 [''bbq'', ''corn'', ''beans''] ''james.taylor@example.com'' True,
       sample ''Mary Johnson'' 41 [''soup'', ''sandwich'', ''fruit''] ''mary.johnson@example.com'' True ]"

text \<open>\<^verbatim>\<open>await Person.deleteMany({})\<close>, then \<^verbatim>\<open>await Person.create(samplePeople)\<close>.\<close>

definition seedDatabase :: "db \<Rightarrow> (error + person list) \<times> db" where
  "seedDatabase st = Model_create samplePeople (snd (Model_deleteMany FAll st))"

text \<open>The ten sample records as they are stored when the ids start at \<open>i\<close>.\<close>

definition stored ::
  "nat \<Rightarrow> string \<Rightarrow> rat \<Rightarrow> string list \<Rightarrow> string \<Rightarrow> bool \<Rightarrow> person" where
  "stored i n a foods e act =
     \<lparr> oid = i, name = n, age = Some a, favoriteFoods = foods, email = Val e, isActive = act \<rparr>"

definition seededPeople :: "nat \<Rightarrow> person list" where
  "seededPeople i =
     [ stored i ''John Smith'' 28 [''pizza'', ''burgers'', ''pasta''] ''john.smith@example.com'' True,
       stored (i + 1) ''Emma Johnson'' 32 [''sushi'', ''salad'', ''burrito''] ''emma.johnson@example.com'' True,
       stored (i + 2) ''Michael Brown'' 45 [''steak'', ''potatoes'', ''burrito''] ''michael.brown@example.com'' True,
       stored (i + 3) ''Sarah Davis'' 22 [''tacos'', ''ice cream'', ''pizza''] ''sarah.davis@example.com'' True,
       stored (i + 4) ''Robert Wilson'' 38 [''chicken'', ''rice'', ''vegetables''] ''robert.wilson@example.com'' False,
       stored (i + 5) ''Mary Thompson'' 29 [''pasta'', ''wine'', ''cheese''] ''mary.thompson@example.com'' True,
       stored (i + 6) ''David Miller'' 51 [''seafood'', ''soup'', ''bread''] ''david.miller@example.com'' True,
       stored (i + 7) ''Lisa Anderson'' 26 [''burrito'', ''nachos'', ''guacamole''] ''lisa.anderson@example.com'' True,
       stored (i + 8) ''James Taylor'' 33 [''bbq'', ''corn'', ''beans''] ''james.taylor@example.com'' True,
       stored (i + 9) ''Mary Johnson'' 41 [''soup'', ''sandwich'', ''fruit''] ''mary.johnson@example.com'' True ]"

text \<open>The first record the demo inserts.\<close>

definition johnDoe :: personData where
  "johnDoe =
     \<lparr> pd_name = Some ''John Doe'', pd_age = JNum 30,
       pd_favoriteFoods = Some [''pizza'', ''pasta''], pd_email = Val ''john@example.com'',
       pd_isActive = None \<rparr>"

text \<open>The document that insert gives in an empty collection, and the collection after it.\<close>

definition johnStored :: person where
  "johnStored =
     \<lparr> oid = 0, name = ''John Doe'', age = Some 30, favoriteFoods = [''pizza'', ''pasta''],
       email = Val ''john@example.com'', isActive = True \<rparr>"

definition johnDb :: db where
  "johnDb = \<lparr> docs = [johnStored], nextId = 1 \<rparr>"

text \<open>An \<^verbatim>\<open>updates\<close> object with no property.\<close>

definition noUpdates :: updates where
  "noUpdates =
     \<lparr> u_name = None, u_age = JUndefined, u_email = Absent, u_isActive = None,
       u_addToFavorites = None \<rparr>"

section \<open>Reachable collections\<close>

text \<open>
  The calls that write. The find methods and \<^verbatim>\<open>getStats\<close> return no new state. An
  instance method is called on a document that was just loaded by its id.
\<close>

datatype operation =
    CreateAndSavePerson personData
  | CreateManyPeople "personData list"
  | UpdatePersonClassic "nat option" updates
  | AddHamburgerToFavorites "nat option"
  | FindOneAndUpdateAge string jsval
  | DeletePersonById "nat option"
  | DeleteManyByName string
  | SeedDatabase
  | AddFavoriteFood nat string
  | RemoveFavoriteFood nat string

fun perform :: "operation \<Rightarrow> db \<Rightarrow> db" where
  "perform (CreateAndSavePerson obj) st = snd (createAndSavePerson obj st)"
| "perform (CreateManyPeople objs) st = snd (createManyPeople objs st)"
| "perform (UpdatePersonClassic i u) st = snd (updatePersonClassic i u st)"
| "perform (AddHamburgerToFavorites i) st = snd (addHamburgerToFavorites i st)"
| "perform (FindOneAndUpdateAge n a) st = snd (findOneAndUpdateAge n a st)"
| "perform (DeletePersonById i) st = snd (deletePersonById i st)"
| "perform (DeleteManyByName n) st = snd (deleteManyByName n st)"
| "perform SeedDatabase st = snd (seedDatabase st)"
| "perform (AddFavoriteFood i food) st =
     (case Model_findById i st of None \<Rightarrow> st | Some p \<Rightarrow> snd (addFavoriteFood p food st))"
| "perform (RemoveFavoriteFood i food) st =
     (case Model_findById i st of None \<Rightarrow> st | Some p \<Rightarrow> snd (removeFavoriteFood p food st))"

inductive reachable :: "db \<Rightarrow> bool" where
  initial: "reachable emptyDb"
| step: "reachable st \<Longrightarrow> reachable (perform opn st)"

text \<open>The non-null emails of a collection, one entry per record that has one.\<close>

definition emails :: "person list \<Rightarrow> string list" where
  "emails ds = List.map_filter (\<lambda>p. case email p of Val e \<Rightarrow> Some e | Null \<Rightarrow> None | Absent \<Rightarrow> None) ds"

text \<open>
  What every write keeps: ids are distinct and were generated before \<open>nextId\<close>, and two
  records that share an indexed email value are the same record.
\<close>

definition wellFormed :: "db \<Rightarrow> bool" where
  "wellFormed st =
     (distinct (map oid (docs st)) \<and> list_all (\<lambda>d. oid d < nextId st) (docs st)
      \<and> list_all (\<lambda>d. list_all (\<lambda>d'. email d = Absent \<or> email d \<noteq> email d' \<or> oid d = oid d')
            (docs st)) (docs st))"

section \<open>Evaluation and basic facts\<close>

lemmas char_defs = isSpace_def isUpper_def isLower_def isDigit_def isAlpha_def isWord_def

lemmas regex_defs = emailRegex_def rplus_def ropt_def alt_def seq_def Let_def

lemmas schema_defs = validate_def validateName_def nameValidator_def validateAge_def
  validateFoods_def validateEmail_def trim_def setEmail_def toLowerCase_def toLowerChar_def
  newPerson_def

lemmas write_defs = createOne_def saveNew_def save_def duplicateEmail_def

lemma insert_johnDoe: "createAndSavePerson johnDoe emptyDb = (Inr johnStored, johnDb)"
  by (simp add: createAndSavePerson_def johnDoe_def emptyDb_def johnStored_def johnDb_def
      write_defs schema_defs char_defs regex_defs)

lemma addToFavorites_present: "set new \<subseteq> set foods \<Longrightarrow> addToFavorites foods new = foods"
  by (induction new) auto

lemma findById_oid: "Model_findById i st = Some p \<Longrightarrow> oid p = i \<and> p \<in> set (docs st)"
  by (auto simp: Model_findById_def find_Some_iff)

lemma applyUpdates_oid: "applyUpdates p u = Inr p' \<Longrightarrow> oid p' = oid p"
  by (auto simp: applyUpdates_def Let_def split: option.splits sum.splits if_splits)

lemma find_map_replace:
  "find (\<lambda>d. oid d = i) ds = Some p \<Longrightarrow> oid p' = i \<Longrightarrow>
   find (\<lambda>d. oid d = i) (map (\<lambda>d. if oid d = i then p' else d) ds) = Some p'"
  by (induction ds) (auto split: if_splits)

lemma save_result:
  "save p st = (r, st') \<Longrightarrow>
   (r = Inr p \<and> docs st' = map (\<lambda>d. if oid d = oid p then p else d) (docs st)
      \<and> nextId st' = nextId st)
   \<or> ((\<exists>e. r = Inl e) \<and> st' = st)"
  by (auto simp: save_def split: if_splits)

section \<open>The matcher decides the language of the pattern\<close>

lemma nullable_lang: "nullable r \<longleftrightarrow> [] \<in> lang r"
  by (induction r) (auto simp: langSeq_def intro: langStar.none)

lemma lang_alt: "lang (alt r s) = lang r \<union> lang s"
  by (auto simp: alt_def)

lemma lang_seq: "lang (seq r s) = langSeq (lang r) (lang s)"
  by (auto simp: seq_def langSeq_def)

lemma afterChar_union: "afterChar c (A \<union> B) = afterChar c A \<union> afterChar c B"
  by (auto simp: afterChar_def)

lemma afterChar_langSeq:
  "afterChar c (langSeq A B) =
     langSeq (afterChar c A) B \<union> (if [] \<in> A then afterChar c B else {})"
proof (intro set_eqI iffI)
  fix s assume "s \<in> afterChar c (langSeq A B)"
  then obtain u v where uv: "c # s = u @ v" "u \<in> A" "v \<in> B"
    by (auto simp: afterChar_def langSeq_def)
  show "s \<in> langSeq (afterChar c A) B \<union> (if [] \<in> A then afterChar c B else {})"
  proof (cases u)
    case Nil
    with uv show ?thesis by (simp add: afterChar_def)
  next
    case (Cons a u')
    with uv have "a = c" "s = u' @ v" "c # u' \<in> A"
      by simp_all
    with uv(3) show ?thesis
      by (auto simp: afterChar_def langSeq_def)
  qed
next
  fix s assume "s \<in> langSeq (afterChar c A) B \<union> (if [] \<in> A then afterChar c B else {})"
  then consider (left) "s \<in> langSeq (afterChar c A) B" | (right) "[] \<in> A" "s \<in> afterChar c B"
    by (auto split: if_splits)
  then show "s \<in> afterChar c (langSeq A B)"
  proof cases
    case left
    then obtain u v where "s = u @ v" "c # u \<in> A" "v \<in> B"
      by (auto simp: afterChar_def langSeq_def)
    then have "c # s = (c # u) @ v \<and> c # u \<in> A \<and> v \<in> B"
      by simp
    then show ?thesis
      unfolding afterChar_def langSeq_def by blast
  next
    case right
    then have "c # s = [] @ (c # s) \<and> [] \<in> A \<and> c # s \<in> B"
      by (simp add: afterChar_def)
    then show ?thesis
      unfolding afterChar_def langSeq_def by blast
  qed
qed

lemma langStar_after:
  "w \<in> langStar A \<Longrightarrow> w = c # s \<Longrightarrow> s \<in> langSeq (afterChar c A) (langStar A)"
proof (induction arbitrary: s rule: langStar.induct)
  case none
  then show ?case by simp
next
  case (more u v)
  show ?case
  proof (cases u)
    case Nil
    with more show ?thesis by simp
  next
    case (Cons a u')
    with more.prems have "a = c" "s = u' @ v"
      by simp_all
    with Cons more.hyps show ?thesis
      by (auto simp: afterChar_def langSeq_def)
  qed
qed

lemma afterChar_langStar: "afterChar c (langStar A) = langSeq (afterChar c A) (langStar A)"
proof (intro set_eqI iffI)
  fix s assume "s \<in> afterChar c (langStar A)"
  then show "s \<in> langSeq (afterChar c A) (langStar A)"
    using langStar_after [of "c # s" A c s] by (simp add: afterChar_def)
next
  fix s assume "s \<in> langSeq (afterChar c A) (langStar A)"
  then obtain u v where "s = u @ v" "c # u \<in> A" "v \<in> langStar A"
    by (auto simp: afterChar_def langSeq_def)
  then have "(c # u) @ v \<in> langStar A" and "c # s = (c # u) @ v"
    using langStar.more [of "c # u" A v] by simp_all
  then show "s \<in> afterChar c (langStar A)"
    by (simp add: afterChar_def)
qed

lemma lang_deriv: "lang (deriv c r) = afterChar c (lang r)"
proof (induction r)
  case (Seq r s)
  then show ?case
    by (simp add: lang_alt lang_seq afterChar_langSeq nullable_lang)
next
  case (Star r)
  then show ?case
    by (simp add: lang_seq afterChar_langStar)
qed (auto simp: lang_alt afterChar_def)

lemma matches_lang: "matches r s \<longleftrightarrow> s \<in> lang r"
  by (induction s arbitrary: r) (simp_all add: nullable_lang lang_deriv afterChar_def)

section \<open>Appending a favorite food\<close>

text \<open>
  C3. For a record and a food already in its \<open>favoriteFoods\<close>: the \<^verbatim>\<open>addToFavorites\<close>
  handling of \<^verbatim>\<open>updatePersonClassic\<close> leaves the list as it is, in the document it
  resolves with and in the stored record, whatever else the update changes and whether
  or not the save succeeds; and \<^verbatim>\<open>addFavoriteFood\<close> resolves with the unchanged document
  without writing.
\<close>

theorem append_present_food_unchanged:
  assumes present: "food \<in> set (favoriteFoods person)"
    and loaded: "Model_findById i st = Some person"
    and upd: "u_addToFavorites u = Some [food]"
  shows "(\<forall>p'. applyUpdates person u = Inr p' \<longrightarrow> favoriteFoods p' = favoriteFoods person)
    \<and> (\<forall>p'. fst (updatePersonClassic (Some i) u st) = Inr p' \<longrightarrow>
          favoriteFoods p' = favoriteFoods person)
    \<and> (\<exists>p'. Model_findById i (snd (updatePersonClassic (Some i) u st)) = Some p'
          \<and> favoriteFoods p' = favoriteFoods person)
    \<and> addFavoriteFood person food st = (Inr person, st)"
proof -
  have same: "favoriteFoods p' = favoriteFoods person" if "applyUpdates person u = Inr p'" for p'
    using that present upd
    by (auto simp: applyUpdates_def Let_def split: option.splits sum.splits if_splits)
  have inst: "addFavoriteFood person food st = (Inr person, st)"
    using present by (simp add: addFavoriteFood_def)
  show ?thesis
  proof (cases "applyUpdates person u")
    case (Inl e)
    then show ?thesis
      using loaded inst by (simp add: updatePersonClassic_def)
  next
    case (Inr p')
    obtain r st' where sv: "save p' st = (r, st')"
      by (cases "save p' st")
    have run: "updatePersonClassic (Some i) u st = (r, st')"
      using loaded Inr sv by (simp add: updatePersonClassic_def)
    have id': "oid p' = i"
      using applyUpdates_oid [OF Inr] findById_oid [OF loaded] by simp
    from save_result [OF sv] show ?thesis
    proof
      assume ok: "r = Inr p' \<and> docs st' = map (\<lambda>d. if oid d = oid p' then p' else d) (docs st)
        \<and> nextId st' = nextId st"
      then have "Model_findById i st' = Some p'"
        using loaded id' find_map_replace [of i "docs st" person p']
        by (simp add: Model_findById_def)
      then show ?thesis
        using run ok same [OF Inr] Inr inst by simp
    next
      assume "(\<exists>e. r = Inl e) \<and> st' = st"
      then show ?thesis
        using run loaded same Inr inst by auto
    qed
  qed
qed

theorem append_present_food_unchanged_witness:
  "(\<exists>p'. Model_findById 0
       (snd (updatePersonClassic (Some 0) (noUpdates\<lparr>u_addToFavorites := Some [''pizza'']\<rparr>)
          johnDb)) = Some p' \<and> favoriteFoods p' = [''pizza'', ''pasta''])
   \<and> fst (updatePersonClassic (Some 0) (noUpdates\<lparr>u_addToFavorites := Some [''pizza'']\<rparr>) johnDb)
       = Inr johnStored
   \<and> addFavoriteFood johnStored ''pizza'' johnDb = (Inr johnStored, johnDb)"
proof -
  have present: "''pizza'' \<in> set (favoriteFoods johnStored)"
    by (simp add: johnStored_def)
  have loaded: "Model_findById 0 johnDb = Some johnStored"
    by (simp add: Model_findById_def johnDb_def johnStored_def)
  have upd: "u_addToFavorites (noUpdates\<lparr>u_addToFavorites := Some [''pizza'']\<rparr>) = Some [''pizza'']"
    by simp
  have run: "fst (updatePersonClassic (Some 0) (noUpdates\<lparr>u_addToFavorites := Some [''pizza'']\<rparr>)
      johnDb) = Inr johnStored"
    by (simp add: updatePersonClassic_def applyUpdates_def noUpdates_def Model_findById_def
        johnDb_def johnStored_def write_defs schema_defs char_defs regex_defs)
  have foods: "favoriteFoods johnStored = [''pizza'', ''pasta'']"
    by (simp add: johnStored_def)
  show ?thesis
    using append_present_food_unchanged [OF present loaded upd] run foods by simp
qed

section \<open>The read-modify-write update\<close>





section \<open>The find-one-and-update of the age\<close>






section \<open>Deleting by name\<close>

text \<open>
  C8, as stated: for every name, the call removes exactly the records whose name equals
  it and resolves with their count. The method throws on an empty name; and the name is
  trimmed before it is compared, so a name with surrounding white space removes the
  records that have the trimmed name, none of which equals the argument.
\<close>

theorem deleteManyByName_rejects_empty_and_trims:
  "deleteManyByName [] johnDb = (Inl (Error ''Name is required for deletion''), johnDb)
   \<and> filter (\<lambda>p. name p = '' John Doe '') (docs johnDb) = []
   \<and> deleteManyByName '' John Doe '' johnDb = (Inr \<lparr>deletedCount = 1\<rparr>, johnDb\<lparr>docs := []\<rparr>)"
  by (simp add: deleteManyByName_def Model_deleteMany_def johnDb_def johnStored_def trim_def
      isSpace_def)

text \<open>
  C8, amended. An empty name throws, and the collection is unchanged. For every
  non-empty name, the call resolves; the records left are those whose name differs
  from the trimmed name, unchanged and in their order; the deleted count is the number
  of records whose name equals the trimmed name, which is the number of records that
  are gone.
\<close>

theorem deleteManyByName_outcome:
  "(n = [] \<longrightarrow>
      deleteManyByName n st = (Inl (Error ''Name is required for deletion''), st))
   \<and> (n \<noteq> [] \<longrightarrow>
        (\<exists>r st'. deleteManyByName n st = (Inr r, st')
          \<and> docs st' = filter (\<lambda>p. name p \<noteq> trim n) (docs st)
          \<and> deletedCount r = length (filter (\<lambda>p. name p = trim n) (docs st))
          \<and> length (docs st') + deletedCount r = length (docs st)
          \<and> nextId st' = nextId st))"
proof (intro conjI impI)
  assume "n = []"
  then show "deleteManyByName n st = (Inl (Error ''Name is required for deletion''), st)"
    by (simp add: deleteManyByName_def)
next
  assume nonempty: "n \<noteq> []"
  have "length (filter (\<lambda>p. name p \<noteq> trim n) (docs st))
      + length (filter (\<lambda>p. name p = trim n) (docs st)) = length (docs st)"
    using sum_length_filter_compl [of "\<lambda>p. name p = trim n" "docs st"] by simp
  moreover have "matchesFilter (FName n) = (\<lambda>p. name p = trim n)"
    by (rule ext) simp
  ultimately show "\<exists>r st'. deleteManyByName n st = (Inr r, st')
          \<and> docs st' = filter (\<lambda>p. name p \<noteq> trim n) (docs st)
          \<and> deletedCount r = length (filter (\<lambda>p. name p = trim n) (docs st))
          \<and> length (docs st') + deletedCount r = length (docs st)
          \<and> nextId st' = nextId st"
    using nonempty by (simp add: deleteManyByName_def Model_deleteMany_def)
qed

theorem deleteManyByName_outcome_witness:
  "(\<exists>r st'. deleteManyByName ''Mary'' johnDb = (Inr r, st')
      \<and> docs st' = [johnStored] \<and> deletedCount r = 0)
   \<and> deleteManyByName [] johnDb = (Inl (Error ''Name is required for deletion''), johnDb)"
proof -
  have n: "''Mary'' \<noteq> []"
    by simp
  have keep: "filter (\<lambda>p. name p \<noteq> trim ''Mary'') (docs johnDb) = [johnStored]"
    and gone: "filter (\<lambda>p. name p = trim ''Mary'') (docs johnDb) = []"
    by (simp_all add: johnDb_def johnStored_def trim_def isSpace_def)
  have r1: "\<exists>r st'. deleteManyByName ''Mary'' johnDb = (Inr r, st')
      \<and> docs st' = [johnStored] \<and> deletedCount r = 0"
    using deleteManyByName_outcome [of "''Mary''" johnDb] n keep gone by auto
  have r2: "deleteManyByName [] johnDb = (Inl (Error ''Name is required for deletion''), johnDb)"
    using deleteManyByName_outcome [of "[]" johnDb] by blast
  show ?thesis
    using r1 r2 by (intro conjI)
qed

section \<open>Inserting a record\<close>

lemma length_trim_le: "length (trim s) \<le> length s"
proof -
  have "length (trim s) \<le> length (dropWhile isSpace s)"
    using length_dropWhile_le [of isSpace "rev (dropWhile isSpace s)"] by (simp add: trim_def)
  also have "\<dots> \<le> length s"
    by (rule length_dropWhile_le)
  finally show ?thesis .
qed

lemma mem_dropWhile: "c \<in> set s \<Longrightarrow> \<not> P c \<Longrightarrow> c \<in> set (dropWhile P s)"
  by (induction s) auto

lemma mem_trim: "c \<in> set s \<Longrightarrow> \<not> isSpace c \<Longrightarrow> c \<in> set (trim s)"
  using mem_dropWhile [of c "rev (dropWhile isSpace s)" isSpace] mem_dropWhile [of c s isSpace]
  by (simp add: trim_def)

lemma digit_not_letter_or_space: "isDigit c \<Longrightarrow> \<not> isAlpha c \<and> \<not> isSpace c"
  by (auto simp: char_defs)

lemma invalid_name_fails_validation:
  assumes "length n < 2 \<or> list_ex isDigit n"
  shows "\<not> validateName (trim n)"
proof -
  from assms consider (short) "length n < 2" | (digit) "list_ex isDigit n"
    by blast
  then show ?thesis
  proof cases
    case short
    with length_trim_le [of n] show ?thesis
      by (simp add: validateName_def)
  next
    case digit
    then obtain c where c: "c \<in> set n" "isDigit c"
      by (auto simp: list_ex_iff)
    then have "c \<in> set (trim n)"
      using mem_trim digit_not_letter_or_space by blast
    with c digit_not_letter_or_space [of c] show ?thesis
      by (auto simp: validateName_def nameValidator_def list_all_iff)
  qed
qed

lemma createOne_invalid:
  assumes "pd_name obj = Some n" and "\<not> validateName (trim n)"
  shows "(\<exists>e. fst (createOne obj st) = Inl e) \<and> docs (snd (createOne obj st)) = docs st"
  using assms
  by (auto simp: createOne_def newPerson_def saveNew_def validate_def Let_def
      split: sum.splits)

text \<open>
  C6. An insert whose name is shorter than 2 characters or contains a digit is rejected
  and the collection holds the records it held before: through \<^verbatim>\<open>createAndSavePerson\<close>,
  and for a document of \<^verbatim>\<open>Person.create\<close> (the insert of \<^verbatim>\<open>createManyPeople\<close> and of the
  seed script).
\<close>

theorem invalid_name_rejected:
  assumes nm: "pd_name obj = Some n"
    and bad: "length n < 2 \<or> list_ex isDigit n"
  shows "(\<exists>e. fst (createAndSavePerson obj st) = Inl e)
    \<and> docs (snd (createAndSavePerson obj st)) = docs st
    \<and> (\<exists>e. fst (createOne obj st) = Inl e)
    \<and> docs (snd (createOne obj st)) = docs st"
proof -
  have inv: "\<not> validateName (trim n)"
    using bad by (rule invalid_name_fails_validation)
  let ?obj = "\<lparr> pd_name = pd_name obj,
      pd_age = (if truthy (pd_age obj) then pd_age obj else JNull),
      pd_favoriteFoods = Some (case pd_favoriteFoods obj of None \<Rightarrow> [] | Some fs \<Rightarrow> fs),
      pd_email = (case pd_email obj of
                    Val s \<Rightarrow> if s = [] then Null else Val s | Null \<Rightarrow> Null | Absent \<Rightarrow> Null),
      pd_isActive = Some (case pd_isActive obj of None \<Rightarrow> True | Some b \<Rightarrow> b) \<rparr>"
  have "pd_name ?obj = Some n"
    using nm by simp
  from createOne_invalid [OF this inv, of st] createOne_invalid [OF nm inv, of st]
  show ?thesis
    by (auto simp: createAndSavePerson_def)
qed

theorem invalid_name_rejected_witness:
  "(\<exists>e. fst (createAndSavePerson (johnDoe\<lparr>pd_name := Some ''J0hn Doe''\<rparr>) johnDb) = Inl e)
   \<and> docs (snd (createAndSavePerson (johnDoe\<lparr>pd_name := Some ''J0hn Doe''\<rparr>) johnDb)) = [johnStored]
   \<and> (\<exists>e. fst (createAndSavePerson (johnDoe\<lparr>pd_name := Some ''J''\<rparr>) johnDb) = Inl e)
   \<and> docs (snd (createAndSavePerson (johnDoe\<lparr>pd_name := Some ''J''\<rparr>) johnDb)) = [johnStored]"
proof -
  have n1: "pd_name (johnDoe\<lparr>pd_name := Some ''J0hn Doe''\<rparr>) = Some ''J0hn Doe''"
    and n2: "pd_name (johnDoe\<lparr>pd_name := Some ''J''\<rparr>) = Some ''J''"
    by simp_all
  have b1: "length ''J0hn Doe'' < 2 \<or> list_ex isDigit ''J0hn Doe''"
    and b2: "length ''J'' < 2 \<or> list_ex isDigit ''J''"
    by (simp_all add: isDigit_def)
  have d: "docs johnDb = [johnStored]"
    by (simp add: johnDb_def)
  show ?thesis
    using invalid_name_rejected [OF n1 b1, of johnDb] invalid_name_rejected [OF n2 b2, of johnDb] d
    by simp
qed

lemma saveNew_result:
  "saveNew p st = (Inr q, st') \<Longrightarrow> q = p \<and> docs st' = docs st @ [p] \<and> nextId st' = nextId st"
  by (auto simp: saveNew_def split: if_splits)

lemma createAndSavePerson_stored:
  assumes "createAndSavePerson obj st = (Inr p, st')"
  shows "docs st' = docs st @ [p] \<and> nextId st' = Suc (nextId st) \<and> oid p = nextId st
    \<and> castNumber (if truthy (pd_age obj) then pd_age obj else JNull) = Inr (age p)"
  using assms
  by (auto simp: createAndSavePerson_def createOne_def newPerson_def Let_def
      split: if_splits option.splits sum.splits dest!: saveNew_result)

text \<open>
  C10. When the age handed to \<^verbatim>\<open>createAndSavePerson\<close> is falsy (0, the empty string,
  \<^verbatim>\<open>NaN\<close>, \<^verbatim>\<open>false\<close>, \<^verbatim>\<open>null\<close>, \<^verbatim>\<open>undefined\<close>), the call does what it does for
  \<^verbatim>\<open>null\<close>, and the record it persists has the age \<^verbatim>\<open>null\<close>; a non-zero number is
  persisted as given, and one in 0..120 passes the age validators. Age 0 itself passes
  them too: a document built from the same object without the service (\<^verbatim>\<open>Person.create\<close>)
  is persisted with age 0.
\<close>

theorem falsy_age_persisted_as_null:
  "(\<not> truthy (pd_age obj) \<longrightarrow>
      createAndSavePerson obj st = createAndSavePerson (obj\<lparr>pd_age := JNull\<rparr>) st
      \<and> (\<forall>p st'. createAndSavePerson obj st = (Inr p, st') \<longrightarrow>
            age p = None \<and> docs st' = docs st @ [p]))
   \<and> (\<forall>n. pd_age obj = JNum n \<and> n \<noteq> 0 \<longrightarrow>
        (0 \<le> n \<and> n \<le> 120 \<longrightarrow> validateAge (Some n))
        \<and> (\<forall>p st'. createAndSavePerson obj st = (Inr p, st') \<longrightarrow>
              age p = Some n \<and> docs st' = docs st @ [p]))
   \<and> validateAge (Some 0)
   \<and> (\<forall>p st'. createOne (obj\<lparr>pd_age := JNum 0\<rparr>) st = (Inr p, st') \<longrightarrow>
         age p = Some 0 \<and> docs st' = docs st @ [p])"
proof (intro conjI impI allI)
  assume "\<not> truthy (pd_age obj)"
  then show "createAndSavePerson obj st = createAndSavePerson (obj\<lparr>pd_age := JNull\<rparr>) st"
    by (simp add: createAndSavePerson_def)
next
  fix p st'
  assume "\<not> truthy (pd_age obj)" and "createAndSavePerson obj st = (Inr p, st')"
  then show "age p = None" and "docs st' = docs st @ [p]"
    using createAndSavePerson_stored [of obj st p st'] by simp_all
next
  fix n
  assume "pd_age obj = JNum n \<and> n \<noteq> 0" and "0 \<le> n \<and> n \<le> 120"
  then show "validateAge (Some n)"
    by (simp add: validateAge_def)
next
  fix n p st'
  assume "pd_age obj = JNum n \<and> n \<noteq> 0" and "createAndSavePerson obj st = (Inr p, st')"
  then show "age p = Some n" and "docs st' = docs st @ [p]"
    using createAndSavePerson_stored [of obj st p st'] by simp_all
next
  show "validateAge (Some 0)"
    by (simp add: validateAge_def)
next
  fix p st'
  assume "createOne (obj\<lparr>pd_age := JNum 0\<rparr>) st = (Inr p, st')"
  then show "age p = Some 0" and "docs st' = docs st @ [p]"
    by (auto simp: createOne_def newPerson_def Let_def split: option.splits sum.splits
        dest!: saveNew_result)
qed

theorem falsy_age_persisted_as_null_witness:
  "createAndSavePerson (johnDoe\<lparr>pd_age := JNum 0\<rparr>) emptyDb
     = (Inr (johnStored\<lparr>age := None\<rparr>), johnDb\<lparr>docs := [johnStored\<lparr>age := None\<rparr>]\<rparr>)
   \<and> createAndSavePerson (johnDoe\<lparr>pd_age := JEmptyString\<rparr>) emptyDb
     = (Inr (johnStored\<lparr>age := None\<rparr>), johnDb\<lparr>docs := [johnStored\<lparr>age := None\<rparr>]\<rparr>)
   \<and> createOne (johnDoe\<lparr>pd_age := JNum 0\<rparr>) emptyDb
     = (Inr (johnStored\<lparr>age := Some 0\<rparr>), johnDb\<lparr>docs := [johnStored\<lparr>age := Some 0\<rparr>]\<rparr>)
   \<and> createAndSavePerson johnDoe emptyDb = (Inr johnStored, johnDb)
   \<and> age johnStored = Some 30"
proof -
  have null: "createAndSavePerson (johnDoe\<lparr>pd_age := JNull\<rparr>) emptyDb
      = (Inr (johnStored\<lparr>age := None\<rparr>), johnDb\<lparr>docs := [johnStored\<lparr>age := None\<rparr>]\<rparr>)"
    by (simp add: createAndSavePerson_def johnDoe_def emptyDb_def johnStored_def johnDb_def
        write_defs schema_defs char_defs regex_defs)
  have zero: "createOne (johnDoe\<lparr>pd_age := JNum 0\<rparr>) emptyDb
      = (Inr (johnStored\<lparr>age := Some 0\<rparr>), johnDb\<lparr>docs := [johnStored\<lparr>age := Some 0\<rparr>]\<rparr>)"
    by (simp add: johnDoe_def emptyDb_def johnStored_def johnDb_def
        write_defs schema_defs char_defs regex_defs)
  have f0: "\<not> truthy (pd_age (johnDoe\<lparr>pd_age := JNum 0\<rparr>))"
    and fs: "\<not> truthy (pd_age (johnDoe\<lparr>pd_age := JEmptyString\<rparr>))"
    and t30: "pd_age johnDoe = JNum 30 \<and> (30 :: rat) \<noteq> 0"
    by (simp_all add: johnDoe_def)
  have r0: "(johnDoe\<lparr>pd_age := JNum 0\<rparr>)\<lparr>pd_age := JNull\<rparr> = johnDoe\<lparr>pd_age := JNull\<rparr>"
    and rs: "(johnDoe\<lparr>pd_age := JEmptyString\<rparr>)\<lparr>pd_age := JNull\<rparr> = johnDoe\<lparr>pd_age := JNull\<rparr>"
    by simp_all
  have e0: "createAndSavePerson (johnDoe\<lparr>pd_age := JNum 0\<rparr>) emptyDb
      = createAndSavePerson (johnDoe\<lparr>pd_age := JNull\<rparr>) emptyDb"
    using falsy_age_persisted_as_null [of "johnDoe\<lparr>pd_age := JNum 0\<rparr>" emptyDb] f0
    unfolding r0 by blast
  have es: "createAndSavePerson (johnDoe\<lparr>pd_age := JEmptyString\<rparr>) emptyDb
      = createAndSavePerson (johnDoe\<lparr>pd_age := JNull\<rparr>) emptyDb"
    using falsy_age_persisted_as_null [of "johnDoe\<lparr>pd_age := JEmptyString\<rparr>" emptyDb] fs
    unfolding rs by blast
  have a30: "age johnStored = Some 30"
    using falsy_age_persisted_as_null [of johnDoe emptyDb] t30 insert_johnDoe by blast
  show ?thesis
    unfolding e0 es using null zero insert_johnDoe a30 by (intro conjI)
qed

section \<open>The statistics after seeding\<close>

lemma seed_emails_match:
  "list_all (matches emailRegex)
     [''john.smith@example.com'', ''emma.johnson@example.com'', ''michael.brown@example.com'',
      ''sarah.davis@example.com'', ''robert.wilson@example.com'', ''mary.thompson@example.com'',
      ''david.miller@example.com'', ''lisa.anderson@example.com'', ''james.taylor@example.com'',
      ''mary.johnson@example.com'']"
  by (simp add: char_defs regex_defs)

lemma seedDatabase_result:
  "seedDatabase st =
     (Inr (seededPeople (nextId st)),
      \<lparr> docs = seededPeople (nextId st), nextId = nextId st + 10 \<rparr>)"
  using seed_emails_match
  by (simp add: seedDatabase_def samplePeople_def sample_def seededPeople_def stored_def
      Model_deleteMany_def write_defs validate_def validateName_def nameValidator_def validateAge_def
  validateFoods_def validateEmail_def trim_def setEmail_def toLowerCase_def toLowerChar_def
  newPerson_def char_defs)

lemma seeded_ages:
  "List.map_filter age (seededPeople i) = [28, 32, 45, 22, 38, 29, 51, 26, 33, 41]"
  by (simp add: seededPeople_def stored_def List.map_filter_def)

text \<open>
  C9. After the seed script's \<^verbatim>\<open>deleteMany({})\<close> and \<^verbatim>\<open>create(samplePeople)\<close>, from any
  collection: the ten records are stored, all with an age, and \<^verbatim>\<open>getStats\<close> returns as
  \<open>averageAge\<close> the sum of their ages divided by their number, 345 / 10 = 34.5 (with ten
  people, nine of them active).
\<close>

theorem seeded_average_age:
  "fst (seedDatabase st) = Inr (docs (snd (seedDatabase st)))
   \<and> length (docs (snd (seedDatabase st))) = 10
   \<and> List.map_filter age (docs (snd (seedDatabase st))) = [28, 32, 45, 22, 38, 29, 51, 26, 33, 41]
   \<and> averageAge (getStats (snd (seedDatabase st)))
       = sum_list (List.map_filter age (docs (snd (seedDatabase st))))
           / of_nat (length (List.map_filter age (docs (snd (seedDatabase st)))))
   \<and> getStats (snd (seedDatabase st)) = \<lparr> totalPeople = 10, activePeople = 9, averageAge = 69 / 2 \<rparr>"
proof -
  have len: "length (seededPeople (nextId st)) = 10"
    by (simp add: seededPeople_def)
  have active: "length (filter (matchesFilter (FActive True)) (seededPeople (nextId st))) = 9"
    by (simp add: seededPeople_def stored_def)
  have stats: "getStats \<lparr> docs = seededPeople (nextId st), nextId = nextId st + 10 \<rparr>
      = \<lparr> totalPeople = 10, activePeople = 9, averageAge = 69 / 2 \<rparr>"
    using len active
    by (simp add: getStats_def Model_countDocuments_def Model_find_def
        Model_aggregate_avgAge_def seeded_ages)
  show ?thesis
    using len stats by (simp add: seedDatabase_result seeded_ages)
qed

theorem seeded_average_age_witness:
  "averageAge (getStats (snd (seedDatabase emptyDb))) = 345 / 10
   \<and> map name (docs (snd (seedDatabase emptyDb)))
       = [''John Smith'', ''Emma Johnson'', ''Michael Brown'', ''Sarah Davis'', ''Robert Wilson'',
          ''Mary Thompson'', ''David Miller'', ''Lisa Anderson'', ''James Taylor'', ''Mary Johnson'']"
proof -
  have "map name (docs (snd (seedDatabase emptyDb)))
       = [''John Smith'', ''Emma Johnson'', ''Michael Brown'', ''Sarah Davis'', ''Robert Wilson'',
          ''Mary Thompson'', ''David Miller'', ''Lisa Anderson'', ''James Taylor'', ''Mary Johnson'']"
    by (simp add: seedDatabase_result seededPeople_def stored_def)
  then show ?thesis
    using seeded_average_age [of emptyDb] by simp
qed

section \<open>The chained query\<close>

lemma stringLe_total: "stringLe s t \<or> stringLe t s"
proof (induction s arbitrary: t)
  case Nil
  then show ?case by simp
next
  case (Cons c s)
  show ?case
  proof (cases t)
    case Nil
    then show ?thesis by simp
  next
    case (Cons d t')
    with Cons.IH [of t'] show ?thesis
      by (auto simp: not_less le_less)
  qed
qed

lemma stringLe_trans: "stringLe s t \<Longrightarrow> stringLe t u \<Longrightarrow> stringLe s u"
proof (induction s arbitrary: t u)
  case Nil
  then show ?case by simp
next
  case (Cons c s)
  from Cons.prems obtain d t' where t: "t = d # t'"
    by (cases t) auto
  from Cons.prems t obtain e u' where u: "u = e # u'"
    by (cases u) auto
  from Cons.prems Cons.IH [of t' u'] show ?case
    unfolding t u by auto
qed

lemma set_insertByName: "set (insertByName p ds) = insert p (set ds)"
  by (induction ds) auto

lemma sorted_insertByName:
  "sorted_wrt (\<lambda>a b. stringLe (name a) (name b)) ds \<Longrightarrow>
   sorted_wrt (\<lambda>a b. stringLe (name a) (name b)) (insertByName p ds)"
proof (induction ds)
  case Nil
  then show ?case by simp
next
  case (Cons d ds)
  show ?case
  proof (cases "stringLe (name p) (name d)")
    case True
    then have "\<forall>x\<in>set ds. stringLe (name p) (name x)"
      using Cons.prems stringLe_trans by auto
    with True Cons.prems show ?thesis by simp
  next
    case False
    then have "stringLe (name d) (name p)"
      using stringLe_total by blast
    with False Cons show ?thesis
      by (auto simp: set_insertByName)
  qed
qed

lemma sortDocs_sorted:
  "sorted_wrt (\<lambda>a b. stringLe (name a) (name b)) (sortDocs NameAscending ds)"
  by (induction ds) (simp_all add: sortDocs_def sorted_insertByName)

lemma set_sortDocs: "set (sortDocs s ds) = set ds"
proof -
  have "set (foldr insertByName ds []) = set ds"
    by (induction ds) (simp_all add: set_insertByName)
  then show ?thesis
    by (cases s) (simp_all add: sortDocs_def)
qed

lemma select_name_favoriteFoods:
  "q_fields (Query_select rule ''name favoriteFoods'' (Model_find_query f))
     = [(''name'', True), (''favoriteFoods'', True)]"
  by (cases rule)
    (simp_all add: Query_select_def Model_find_query_def selectPiece_def selectMark_def
      isSpace_def)

text \<open>
  With the including \<^verbatim>\<open>select\<close> alone the same chain resolves under either rule, and
  with what the two of them are meant to give: at most two records that have the food,
  ordered by name, each with \<open>name\<close> and \<open>favoriteFoods\<close> and no other path.
\<close>

lemma query_with_including_select_only:
  "\<exists>ds. Query_exec (Query_limit 2 (Query_sort NameAscending
            (Query_select rule ''name favoriteFoods'' (Model_find_query (FFood food))))) st
         = Inr (map (project [(''name'', True), (''favoriteFoods'', True)]) ds)
     \<and> length ds \<le> 2
     \<and> sorted_wrt (\<lambda>a b. stringLe (name a) (name b)) ds
     \<and> set ds \<subseteq> {p \<in> set (docs st). trim food \<in> set (favoriteFoods p)}
     \<and> list_all (\<lambda>p. project [(''name'', True), (''favoriteFoods'', True)] p
           = \<lparr> p_oid = oid p, p_name = Some (name p), p_age = None,
               p_favoriteFoods = Some (favoriteFoods p), p_email = None, p_isActive = None \<rparr>) ds"
proof -
  let ?found = "sortDocs NameAscending (Model_find (FFood food) st)"
  let ?q = "Query_select rule ''name favoriteFoods'' (Model_find_query (FFood food))"
  have sorted: "sorted_wrt (\<lambda>a b. stringLe (name a) (name b)) (take 2 ?found)"
    using sortDocs_sorted [of "Model_find (FFood food) st"] sorted_wrt_take by blast
  have sub: "set (take 2 ?found) \<subseteq> {p \<in> set (docs st). trim food \<in> set (favoriteFoods p)}"
    using set_take_subset [of 2 ?found] by (auto simp: set_sortDocs Model_find_def)
  have q: "?q = \<lparr> q_conditions = FFood food, q_sort = Unsorted, q_limit = None,
      q_fields = [(''name'', True), (''favoriteFoods'', True)] \<rparr>"
    using select_name_favoriteFoods [of rule "FFood food"]
    by (simp add: Query_select_def Model_find_query_def Let_def)
  have run: "Query_exec (Query_limit 2 (Query_sort NameAscending ?q)) st
         = Inr (map (project [(''name'', True), (''favoriteFoods'', True)]) (take 2 ?found))"
    unfolding q
    by (simp add: Query_exec_def Query_limit_def Query_sort_def mixedProjection_def)
  have proj: "list_all (\<lambda>p. project [(''name'', True), (''favoriteFoods'', True)] p
           = \<lparr> p_oid = oid p, p_name = Some (name p), p_age = None,
               p_favoriteFoods = Some (favoriteFoods p), p_email = None, p_isActive = None \<rparr>)
        (take 2 ?found)"
    by (simp add: list_all_iff project_def selected_def)
  show ?thesis
    using run sorted sub proj by (intro exI [of _ "take 2 ?found"]) simp
qed

lemma select_both:
  "q_fields (Query_select AddingSelect ''name favoriteFoods''
      (Query_select AddingSelect ''-age'' q0))
     = [(''age'', False), (''name'', True), (''favoriteFoods'', True)]
   \<and> q_fields (Query_select OverridingSelect ''name favoriteFoods''
      (Query_select OverridingSelect ''-age'' q0))
     = [(''age'', False)]"
  if "q_fields q0 = []"
  using that
  by (simp add: Query_select_def selectPiece_def selectMark_def selectedInclusively_def
      isSubpath_def isSpace_def)

lemma burrito_lovers_of_the_seed:
  "take 2 (sortDocs NameAscending (Model_find (FFood ''burrito'') (snd (seedDatabase emptyDb))))
     = [stored 1 ''Emma Johnson'' 32 [''sushi'', ''salad'', ''burrito''] ''emma.johnson@example.com'' True,
        stored 7 ''Lisa Anderson'' 26 [''burrito'', ''nachos'', ''guacamole''] ''lisa.anderson@example.com'' True]"
  by (simp add: seedDatabase_result emptyDb_def seededPeople_def stored_def Model_find_def
      sortDocs_def trim_def isSpace_def)

text \<open>
  C1. The claim: for every food, \<^verbatim>\<open>findBurritoLovers\<close> does not fail and returns at most
  two records, ordered by name, each without \<open>age\<close> and with only \<open>name\<close> and
  \<open>favoriteFoods\<close> besides the id. The method calls \<^verbatim>\<open>select('-age')\<close> and then
  \<^verbatim>\<open>select('name favoriteFoods')\<close>, and under neither rule of the library does this give
  what the claim says. Under the adding rule the projection excludes \<open>age\<close> and includes
  \<open>name\<close> and \<open>favoriteFoods\<close>, the server refuses the mix and the call is rejected, for
  every food and every collection. Under the overriding rule the second \<^verbatim>\<open>select\<close> is
  dropped, the projection excludes \<open>age\<close> only, and every record returned has its
  \<open>email\<close> and \<open>isActive\<close>: after the seed script, the call without argument resolves
  with the records of Emma Johnson and Lisa Anderson, each with email and activity.
\<close>

theorem findBurritoLovers_fails_the_claim:
  "findBurritoLovers AddingSelect food st = Inl ProjectionError
   \<and> findBurritoLovers OverridingSelect food st
       = Inr (map (project [(''age'', False)])
           (take 2 (sortDocs NameAscending
              (Model_find (FFood (case food of None \<Rightarrow> ''burrito'' | Some s \<Rightarrow> s)) st))))
   \<and> project [(''age'', False)] p
       = \<lparr> p_oid = oid p, p_name = Some (name p), p_age = None,
           p_favoriteFoods = Some (favoriteFoods p), p_email = Some (email p),
           p_isActive = Some (isActive p) \<rparr>
   \<and> findBurritoLovers AddingSelect None (snd (seedDatabase emptyDb)) = Inl ProjectionError
   \<and> findBurritoLovers OverridingSelect None (snd (seedDatabase emptyDb))
       = Inr [ \<lparr> p_oid = 1, p_name = Some ''Emma Johnson'', p_age = None,
                 p_favoriteFoods = Some [''sushi'', ''salad'', ''burrito''],
                 p_email = Some (Val ''emma.johnson@example.com''), p_isActive = Some True \<rparr>,
               \<lparr> p_oid = 7, p_name = Some ''Lisa Anderson'', p_age = None,
                 p_favoriteFoods = Some [''burrito'', ''nachos'', ''guacamole''],
                 p_email = Some (Val ''lisa.anderson@example.com''), p_isActive = Some True \<rparr> ]"
proof -
  let ?q0 = "\<lambda>f. Query_limit 2 (Query_sort NameAscending (Model_find_query (FFood f)))"
  have empty: "q_fields (?q0 f) = []" for f
    by (simp add: Query_limit_def Query_sort_def Model_find_query_def)
  have rest: "q_conditions (Query_select rule arg q) = q_conditions q
      \<and> q_sort (Query_select rule arg q) = q_sort q
      \<and> q_limit (Query_select rule arg q) = q_limit q" for rule arg q
    by (simp add: Query_select_def Let_def)
  have adding: "findBurritoLovers AddingSelect fd s = Inl ProjectionError" for fd s
    using select_both [OF empty]
    by (simp add: findBurritoLovers_def Query_exec_def mixedProjection_def Let_def)
  have overriding: "findBurritoLovers OverridingSelect fd s
       = Inr (map (project [(''age'', False)])
           (take 2 (sortDocs NameAscending
              (Model_find (FFood (case fd of None \<Rightarrow> ''burrito'' | Some x \<Rightarrow> x)) s))))" for fd s
    using select_both [OF empty] rest
    by (simp add: findBurritoLovers_def Query_exec_def mixedProjection_def Let_def
        Query_limit_def Query_sort_def Model_find_query_def)
  have proj: "project [(''age'', False)] d
       = \<lparr> p_oid = oid d, p_name = Some (name d), p_age = None,
           p_favoriteFoods = Some (favoriteFoods d), p_email = Some (email d),
           p_isActive = Some (isActive d) \<rparr>" for d
    by (simp add: project_def selected_def)
  have seed: "findBurritoLovers OverridingSelect None (snd (seedDatabase emptyDb))
       = Inr [ \<lparr> p_oid = 1, p_name = Some ''Emma Johnson'', p_age = None,
                 p_favoriteFoods = Some [''sushi'', ''salad'', ''burrito''],
                 p_email = Some (Val ''emma.johnson@example.com''), p_isActive = Some True \<rparr>,
               \<lparr> p_oid = 7, p_name = Some ''Lisa Anderson'', p_age = None,
                 p_favoriteFoods = Some [''burrito'', ''nachos'', ''guacamole''],
                 p_email = Some (Val ''lisa.anderson@example.com''), p_isActive = Some True \<rparr> ]"
    unfolding overriding
    using burrito_lovers_of_the_seed by (simp add: proj stored_def)
  show ?thesis
    using adding overriding proj seed by (intro conjI)
qed

section \<open>What every write keeps\<close>

lemma wellFormedI:
  assumes "distinct (map oid (docs st))"
    and "\<And>d. d \<in> set (docs st) \<Longrightarrow> oid d < nextId st"
    and "\<And>d d'. d \<in> set (docs st) \<Longrightarrow> d' \<in> set (docs st) \<Longrightarrow> email d \<noteq> Absent \<Longrightarrow>
           email d = email d' \<Longrightarrow> oid d = oid d'"
  shows "wellFormed st"
  unfolding wellFormed_def list_all_iff using assms by blast

lemma wellFormed_distinct: "wellFormed st \<Longrightarrow> distinct (map oid (docs st))"
  by (simp add: wellFormed_def)

lemma wellFormed_bound: "wellFormed st \<Longrightarrow> d \<in> set (docs st) \<Longrightarrow> oid d < nextId st"
  by (simp add: wellFormed_def list_all_iff)

lemma wellFormed_email:
  "wellFormed st \<Longrightarrow> d \<in> set (docs st) \<Longrightarrow> d' \<in> set (docs st) \<Longrightarrow> email d \<noteq> Absent \<Longrightarrow>
   email d = email d' \<Longrightarrow> oid d = oid d'"
  unfolding wellFormed_def list_all_iff by blast

lemma wellFormed_emptyDb: "wellFormed emptyDb"
  by (simp add: wellFormed_def emptyDb_def)

lemma wellFormed_nextId:
  assumes wf: "wellFormed st"
  shows "wellFormed (st\<lparr>nextId := Suc (nextId st)\<rparr>)"
proof (rule wellFormedI)
  show "distinct (map oid (docs (st\<lparr>nextId := Suc (nextId st)\<rparr>)))"
    using wellFormed_distinct [OF wf] by simp
next
  fix d assume "d \<in> set (docs (st\<lparr>nextId := Suc (nextId st)\<rparr>))"
  then show "oid d < nextId (st\<lparr>nextId := Suc (nextId st)\<rparr>)"
    using wellFormed_bound [OF wf, of d] by simp
next
  fix d d'
  assume "d \<in> set (docs (st\<lparr>nextId := Suc (nextId st)\<rparr>))"
    "d' \<in> set (docs (st\<lparr>nextId := Suc (nextId st)\<rparr>))" "email d \<noteq> Absent" "email d = email d'"
  then show "oid d = oid d'"
    using wellFormed_email [OF wf, of d d'] by simp
qed

lemma wellFormed_filter:
  assumes wf: "wellFormed st"
  shows "wellFormed (st\<lparr>docs := filter P (docs st)\<rparr>)"
proof (rule wellFormedI)
  show "distinct (map oid (docs (st\<lparr>docs := filter P (docs st)\<rparr>)))"
    using wellFormed_distinct [OF wf] by (simp add: distinct_map_filter)
next
  fix d assume "d \<in> set (docs (st\<lparr>docs := filter P (docs st)\<rparr>))"
  then show "oid d < nextId (st\<lparr>docs := filter P (docs st)\<rparr>)"
    using wellFormed_bound [OF wf, of d] by simp
next
  fix d d'
  assume "d \<in> set (docs (st\<lparr>docs := filter P (docs st)\<rparr>))"
    "d' \<in> set (docs (st\<lparr>docs := filter P (docs st)\<rparr>))" "email d \<noteq> Absent" "email d = email d'"
  then show "oid d = oid d'"
    using wellFormed_email [OF wf, of d d'] by simp
qed

lemma wellFormed_saveNew:
  assumes wf: "wellFormed st" and fresh: "\<And>d. d \<in> set (docs st) \<Longrightarrow> oid d < oid p"
    and bound: "oid p < nextId st"
  shows "wellFormed (snd (saveNew p st))"
proof (cases "validate p \<and> \<not> duplicateEmail p (docs st)")
  case False
  then show ?thesis
    using wf by (auto simp: saveNew_def)
next
  case True
  have nodup: "email d \<noteq> email p" if "d \<in> set (docs st)" "email p \<noteq> Absent" for d
  proof
    assume "email d = email p"
    moreover have "oid d \<noteq> oid p"
      using fresh [OF that(1)] by simp
    ultimately have "duplicateEmail p (docs st)"
      using that by (auto simp: duplicateEmail_def list_ex_iff)
    with True show False by simp
  qed
  have "wellFormed (st\<lparr>docs := docs st @ [p]\<rparr>)"
  proof (rule wellFormedI)
    have "oid p \<notin> set (map oid (docs st))"
      using fresh by fastforce
    then show "distinct (map oid (docs (st\<lparr>docs := docs st @ [p]\<rparr>)))"
      using wellFormed_distinct [OF wf] by simp
  next
    fix d assume "d \<in> set (docs (st\<lparr>docs := docs st @ [p]\<rparr>))"
    then have "d \<in> set (docs st) \<or> d = p" by auto
    then show "oid d < nextId (st\<lparr>docs := docs st @ [p]\<rparr>)"
      using wellFormed_bound [OF wf, of d] bound by auto
  next
    fix d d'
    assume "d \<in> set (docs (st\<lparr>docs := docs st @ [p]\<rparr>))"
      and "d' \<in> set (docs (st\<lparr>docs := docs st @ [p]\<rparr>))"
      and present: "email d \<noteq> Absent" and same: "email d = email d'"
    then have "d \<in> set (docs st) \<or> d = p" and "d' \<in> set (docs st) \<or> d' = p"
      by auto
    then show "oid d = oid d'"
    proof (elim disjE)
      assume "d \<in> set (docs st)" "d' \<in> set (docs st)"
      then show ?thesis
        using wellFormed_email [OF wf, of d d'] present same by metis
    next
      assume "d \<in> set (docs st)" "d' = p"
      then show ?thesis
        using nodup [of d] present same by metis
    next
      assume "d = p" "d' \<in> set (docs st)"
      then show ?thesis
        using nodup [of d'] present same by metis
    next
      assume "d = p" "d' = p"
      then show ?thesis by simp
    qed
  qed
  with True show ?thesis
    by (simp add: saveNew_def)
qed

lemma newPerson_oid: "newPerson i obj = Inr p \<Longrightarrow> oid p = i"
  by (auto simp: newPerson_def split: option.splits sum.splits)

lemma wellFormed_createOne:
  assumes wf: "wellFormed st"
  shows "wellFormed (snd (createOne obj st))"
proof (cases "newPerson (nextId st) obj")
  case (Inl e)
  then show ?thesis
    using wellFormed_nextId [OF wf] by (simp add: createOne_def Let_def)
next
  case (Inr p)
  have id': "oid p = nextId st"
    using Inr by (rule newPerson_oid)
  have "wellFormed (snd (saveNew p (st\<lparr>nextId := Suc (nextId st)\<rparr>)))"
  proof (rule wellFormed_saveNew)
    show "wellFormed (st\<lparr>nextId := Suc (nextId st)\<rparr>)"
      using wf by (rule wellFormed_nextId)
  next
    fix d assume "d \<in> set (docs (st\<lparr>nextId := Suc (nextId st)\<rparr>))"
    then show "oid d < oid p"
      using wellFormed_bound [OF wf, of d] id' by simp
  next
    show "oid p < nextId (st\<lparr>nextId := Suc (nextId st)\<rparr>)"
      using id' by simp
  qed
  with Inr show ?thesis
    by (simp add: createOne_def Let_def)
qed

lemma wellFormed_Model_create:
  "wellFormed st \<Longrightarrow> wellFormed (snd (Model_create objs st))"
proof (induction objs arbitrary: st)
  case Nil
  then show ?case by simp
next
  case (Cons obj objs)
  obtain r st1 where c1: "createOne obj st = (r, st1)"
    by (cases "createOne obj st")
  have wf1: "wellFormed st1"
    using wellFormed_createOne [OF Cons.prems, of obj] c1 by simp
  obtain rs st2 where c2: "Model_create objs st1 = (rs, st2)"
    by (cases "Model_create objs st1")
  have "wellFormed st2"
    using Cons.IH [OF wf1] c2 by simp
  then show ?case
    using c1 c2 by simp
qed

lemma map_oid_replace:
  "oid p = i \<Longrightarrow> map oid (map (\<lambda>d. if oid d = i then p else d) ds) = map oid ds"
  by (induction ds) auto

lemma wellFormed_save:
  assumes wf: "wellFormed st"
  shows "wellFormed (snd (save p st))"
proof (cases "save p st")
  case (Pair r st')
  from save_result [OF Pair] show ?thesis
  proof
    assume "(\<exists>e. r = Inl e) \<and> st' = st"
    with Pair wf show ?thesis by simp
  next
    assume ok: "r = Inr p \<and> docs st' = map (\<lambda>d. if oid d = oid p then p else d) (docs st)
      \<and> nextId st' = nextId st"
    then have "save p st = (Inr p, st')"
      using Pair by simp
    then have nodup: "\<not> duplicateEmail p (docs st)"
      by (auto simp: save_def split: if_splits)
    have docs': "docs st' = map (\<lambda>d. if oid d = oid p then p else d) (docs st)"
      using ok by simp
    have oids: "map oid (docs st') = map oid (docs st)"
      unfolding docs' by (rule map_oid_replace) simp
    have mem: "d = p \<or> (d \<in> set (docs st) \<and> oid d \<noteq> oid p)" if "d \<in> set (docs st')" for d
      using that unfolding docs' by (auto split: if_splits)
    have clash: "oid d = oid p"
      if "d \<in> set (docs st)" "email p \<noteq> Absent" "email d = email p" for d
    proof (rule ccontr)
      assume "oid d \<noteq> oid p"
      with that have "duplicateEmail p (docs st)"
        by (auto simp: duplicateEmail_def list_ex_iff)
      with nodup show False by simp
    qed
    have "wellFormed st'"
    proof (rule wellFormedI)
      show "distinct (map oid (docs st'))"
        using wellFormed_distinct [OF wf] oids by simp
    next
      fix d assume "d \<in> set (docs st')"
      then have "oid d \<in> set (map oid (docs st))"
        unfolding oids [symmetric] by simp
      then obtain d0 where "d0 \<in> set (docs st)" "oid d0 = oid d"
        by auto
      then show "oid d < nextId st'"
        using wellFormed_bound [OF wf, of d0] ok by simp
    next
      fix d d'
      assume d: "d \<in> set (docs st')" and d': "d' \<in> set (docs st')"
        and present: "email d \<noteq> Absent" and same: "email d = email d'"
      from mem [OF d] mem [OF d'] show "oid d = oid d'"
      proof (elim disjE conjE)
        assume "d = p" "d' = p"
        then show ?thesis by simp
      next
        assume "d = p" "d' \<in> set (docs st)" "oid d' \<noteq> oid p"
        then show ?thesis
          using clash [of d'] present same by metis
      next
        assume "d \<in> set (docs st)" "oid d \<noteq> oid p" "d' = p"
        then show ?thesis
          using clash [of d] present same by metis
      next
        assume "d \<in> set (docs st)" "d' \<in> set (docs st)"
        then show ?thesis
          using wellFormed_email [OF wf, of d d'] present same by blast
      qed
    qed
    with Pair show ?thesis by simp
  qed
qed

lemma setAgeOfFirst_keys:
  "map oid (setAgeOfFirst n a ds) = map oid ds \<and> map email (setAgeOfFirst n a ds) = map email ds"
  by (induction ds) auto

lemma wellFormed_same_keys:
  assumes wf: "wellFormed st" and oids: "map oid ds = map oid (docs st)"
    and ems: "map email ds = map email (docs st)"
  shows "wellFormed (st\<lparr>docs := ds\<rparr>)"
proof -
  have len: "length ds = length (docs st)"
    using oids by (rule map_eq_imp_length_eq)
  have key: "\<exists>d0\<in>set (docs st). oid d0 = oid d \<and> email d0 = email d" if "d \<in> set ds" for d
  proof -
    from that obtain k where k: "k < length ds" "ds ! k = d"
      by (auto simp: in_set_conv_nth)
    have "map oid ds ! k = map oid (docs st) ! k" "map email ds ! k = map email (docs st) ! k"
      using oids ems by simp_all
    then have "oid (docs st ! k) = oid d" "email (docs st ! k) = email d"
      using k len by simp_all
    moreover have "docs st ! k \<in> set (docs st)"
      using k len by simp
    ultimately show ?thesis by blast
  qed
  show ?thesis
  proof (rule wellFormedI)
    show "distinct (map oid (docs (st\<lparr>docs := ds\<rparr>)))"
      using wellFormed_distinct [OF wf] oids by simp
  next
    fix d assume "d \<in> set (docs (st\<lparr>docs := ds\<rparr>))"
    then obtain d0 where "d0 \<in> set (docs st)" "oid d0 = oid d"
      using key [of d] by auto
    then show "oid d < nextId (st\<lparr>docs := ds\<rparr>)"
      using wellFormed_bound [OF wf, of d0] by simp
  next
    fix d d'
    assume "d \<in> set (docs (st\<lparr>docs := ds\<rparr>))" "d' \<in> set (docs (st\<lparr>docs := ds\<rparr>))"
      and present: "email d \<noteq> Absent" and same: "email d = email d'"
    then obtain d0 d0' where "d0 \<in> set (docs st)" "oid d0 = oid d" "email d0 = email d"
      "d0' \<in> set (docs st)" "oid d0' = oid d'" "email d0' = email d'"
      using key [of d] key [of d'] by auto
    then show "oid d = oid d'"
      using wellFormed_email [OF wf, of d0 d0'] present same by metis
  qed
qed

lemma wellFormed_perform:
  assumes wf: "wellFormed st"
  shows "wellFormed (perform opn st)"
proof (cases opn)
  case (CreateAndSavePerson obj)
  then show ?thesis
    using wf wellFormed_createOne [OF wf] by (simp add: createAndSavePerson_def)
next
  case (CreateManyPeople objs)
  then show ?thesis
    using wf wellFormed_Model_create [OF wf] by (simp add: createManyPeople_def)
next
  case (UpdatePersonClassic i u)
  then show ?thesis
    using wf wellFormed_save [OF wf]
    by (simp add: updatePersonClassic_def split: option.splits sum.splits)
next
  case (AddHamburgerToFavorites i)
  then show ?thesis
    using wf wellFormed_save [OF wf]
    by (simp add: addHamburgerToFavorites_def updatePersonClassic_def
        split: option.splits sum.splits)
next
  case (FindOneAndUpdateAge n a)
  have "wellFormed (st\<lparr>docs := setAgeOfFirst n b (docs st)\<rparr>)" for n b
    using wf setAgeOfFirst_keys [of n b "docs st"] by (intro wellFormed_same_keys) simp_all
  with FindOneAndUpdateAge show ?thesis
    using wf
    by (simp add: findOneAndUpdateAge_def Model_findOneAndUpdate_age_def
        split: option.splits sum.splits)
next
  case (DeletePersonById i)
  then show ?thesis
    using wf wellFormed_filter [OF wf]
    by (simp add: deletePersonById_def Model_findByIdAndRemove_def split: option.splits)
next
  case (DeleteManyByName n)
  then show ?thesis
    using wf wellFormed_filter [OF wf]
    by (simp add: deleteManyByName_def Model_deleteMany_def)
next
  case SeedDatabase
  have "wellFormed (snd (Model_deleteMany FAll st))"
    using wellFormed_filter [OF wf, of "\<lambda>p. False"] by (simp add: Model_deleteMany_def)
  then show ?thesis
    using SeedDatabase wellFormed_Model_create by (simp add: seedDatabase_def)
next
  case (AddFavoriteFood i food)
  then show ?thesis
    using wf wellFormed_save [OF wf]
    by (simp add: addFavoriteFood_def split: option.splits)
next
  case (RemoveFavoriteFood i food)
  then show ?thesis
    using wf wellFormed_save [OF wf]
    by (simp add: removeFavoriteFood_def split: option.splits)
qed

lemma reachable_wellFormed: "reachable st \<Longrightarrow> wellFormed st"
  by (induction rule: reachable.induct) (simp_all add: wellFormed_emptyDb wellFormed_perform)

lemma emails_Cons:
  "emails (d # ds) = (case email d of Val e \<Rightarrow> e # emails ds | Null \<Rightarrow> emails ds | Absent \<Rightarrow> emails ds)"
  by (cases "email d") (simp_all add: emails_def)

lemma mem_emails: "e \<in> set (emails ds) \<longleftrightarrow> (\<exists>d\<in>set ds. email d = Val e)"
proof (induction ds)
  case Nil
  then show ?case by (simp add: emails_def)
next
  case (Cons d ds)
  then show ?case
    by (cases "email d") (auto simp: emails_Cons)
qed

lemma distinct_emails:
  assumes "distinct (map oid ds)"
    and "\<And>d d'. d \<in> set ds \<Longrightarrow> d' \<in> set ds \<Longrightarrow> email d \<noteq> Absent \<Longrightarrow> email d = email d'
      \<Longrightarrow> oid d = oid d'"
  shows "distinct (emails ds)"
  using assms
proof (induction ds)
  case Nil
  then show ?case by (simp add: emails_def)
next
  case (Cons d ds)
  have tl: "distinct (emails ds)"
  proof (rule Cons.IH)
    show "distinct (map oid ds)"
      using Cons.prems(1) by simp
  next
    fix a b
    assume "a \<in> set ds" "b \<in> set ds" "email a \<noteq> Absent" "email a = email b"
    then show "oid a = oid b"
      using Cons.prems(2) [of a b] by simp
  qed
  show ?case
  proof (cases "email d")
    case (Val e)
    have "e \<notin> set (emails ds)"
    proof
      assume "e \<in> set (emails ds)"
      then obtain d' where d': "d' \<in> set ds" "email d' = Val e"
        unfolding mem_emails by blast
      then have "oid d = oid d'"
        using Cons.prems(2) [of d d'] Val by simp
      moreover have "oid d \<notin> set (map oid ds)"
        using Cons.prems(1) by simp
      ultimately show False
        using d'(1) by simp
    qed
    with tl Val show ?thesis by (simp add: emails_Cons)
  next
    case Null
    with tl show ?thesis by (simp add: emails_Cons)
  next
    case Absent
    with tl show ?thesis by (simp add: emails_Cons)
  qed
qed

lemma wellFormed_distinct_emails: "wellFormed st \<Longrightarrow> distinct (emails (docs st))"
  by (rule distinct_emails) (erule wellFormed_distinct, erule (4) wellFormed_email)

section \<open>Unique emails\<close>

lemma createOne_duplicate:
  assumes wf: "wellFormed st" and em: "pd_email obj = Val e"
    and dup: "setEmail e \<in> set (emails (docs st))"
  shows "(\<exists>err. fst (createOne obj st) = Inl err) \<and> docs (snd (createOne obj st)) = docs st"
proof (cases "newPerson (nextId st) obj")
  case (Inl err)
  then show ?thesis
    by (simp add: createOne_def Let_def)
next
  case (Inr p)
  have id': "oid p = nextId st"
    using Inr by (rule newPerson_oid)
  have mail: "email p = Val (setEmail e)"
    using Inr em by (auto simp: newPerson_def split: option.splits sum.splits)
  obtain d where d: "d \<in> set (docs st)" "email d = Val (setEmail e)"
    using dup unfolding mem_emails by blast
  have "oid d \<noteq> oid p"
    using wellFormed_bound [OF wf d(1)] id' by simp
  then have "duplicateEmail p (docs (st\<lparr>nextId := Suc (nextId st)\<rparr>))"
    using d mail by (auto simp: duplicateEmail_def list_ex_iff)
  then show ?thesis
    using Inr by (simp add: createOne_def Let_def saveNew_def)
qed

text \<open>
  C7. In every collection reached from the empty one by the service's and the model's
  writes, no two records have the same non-null email, and so it is after any further
  write. There, an insert whose email, trimmed and lowercased, is the email of a stored
  record is rejected and stores nothing (through \<^verbatim>\<open>createAndSavePerson\<close>, which takes an
  empty email for none, and for a document of \<^verbatim>\<open>Person.create\<close>).
\<close>

theorem unique_emails_invariant:
  assumes reach: "reachable st"
  shows "distinct (emails (docs st))
    \<and> distinct (emails (docs (perform opn st)))
    \<and> (\<forall>obj e. pd_email obj = Val e \<and> e \<noteq> [] \<and> setEmail e \<in> set (emails (docs st)) \<longrightarrow>
          (\<exists>err. fst (createAndSavePerson obj st) = Inl err)
          \<and> docs (snd (createAndSavePerson obj st)) = docs st
          \<and> (\<exists>err. fst (createOne obj st) = Inl err)
          \<and> docs (snd (createOne obj st)) = docs st)"
proof (intro conjI allI impI)
  have wf: "wellFormed st"
    using reach by (rule reachable_wellFormed)
  show "distinct (emails (docs st))"
    using wf by (rule wellFormed_distinct_emails)
  show "distinct (emails (docs (perform opn st)))"
    using wellFormed_perform [OF wf] by (rule wellFormed_distinct_emails)
  fix obj :: personData and e
  assume h: "pd_email obj = Val e \<and> e \<noteq> [] \<and> setEmail e \<in> set (emails (docs st))"
  let ?obj = "\<lparr> pd_name = pd_name obj,
      pd_age = (if truthy (pd_age obj) then pd_age obj else JNull),
      pd_favoriteFoods = Some (case pd_favoriteFoods obj of None \<Rightarrow> [] | Some fs \<Rightarrow> fs),
      pd_email = (case pd_email obj of
                    Val s \<Rightarrow> if s = [] then Null else Val s | Null \<Rightarrow> Null | Absent \<Rightarrow> Null),
      pd_isActive = Some (case pd_isActive obj of None \<Rightarrow> True | Some b \<Rightarrow> b) \<rparr>"
  have em: "pd_email ?obj = Val e" and em': "pd_email obj = Val e"
    and dup: "setEmail e \<in> set (emails (docs st))"
    using h by simp_all
  have service: "(\<exists>err. fst (createOne ?obj st) = Inl err) \<and> docs (snd (createOne ?obj st)) = docs st"
    using wf em dup by (rule createOne_duplicate)
  have direct: "(\<exists>err. fst (createOne obj st) = Inl err) \<and> docs (snd (createOne obj st)) = docs st"
    using wf em' dup by (rule createOne_duplicate)
  show "\<exists>err. fst (createAndSavePerson obj st) = Inl err"
    using service by (auto simp: createAndSavePerson_def)
  show "docs (snd (createAndSavePerson obj st)) = docs st"
    using service by (auto simp: createAndSavePerson_def)
  show "\<exists>err. fst (createOne obj st) = Inl err"
    using direct by simp
  show "docs (snd (createOne obj st)) = docs st"
    using direct by simp
qed

theorem unique_emails_invariant_witness:
  "distinct (emails (docs johnDb))
   \<and> emails (docs johnDb) = [''john@example.com'']
   \<and> setEmail '' John@Example.COM '' = ''john@example.com''
   \<and> createAndSavePerson (johnDoe\<lparr>pd_name := Some ''Jane Doe'', pd_email := Val '' John@Example.COM ''\<rparr>)
        johnDb = (Inl DuplicateKeyError, johnDb\<lparr>nextId := 2\<rparr>)"
proof -
  have "reachable (perform (CreateAndSavePerson johnDoe) emptyDb)"
    by (intro reachable.step reachable.initial)
  then have reach: "reachable johnDb"
    by (simp add: insert_johnDoe)
  have lower: "setEmail '' John@Example.COM '' = ''john@example.com''"
    by code_simp
  have ems: "emails (docs johnDb) = [''john@example.com'']"
    by (simp add: emails_def johnDb_def johnStored_def)
  have run: "createAndSavePerson
      (johnDoe\<lparr>pd_name := Some ''Jane Doe'', pd_email := Val '' John@Example.COM ''\<rparr>) johnDb
      = (Inl DuplicateKeyError, johnDb\<lparr>nextId := 2\<rparr>)"
    using lower
    by (simp add: createAndSavePerson_def johnDoe_def johnDb_def johnStored_def
        write_defs validate_def validateName_def nameValidator_def validateAge_def
        validateFoods_def validateEmail_def newPerson_def trim_def char_defs regex_defs)
  show ?thesis
    using unique_emails_invariant [OF reach, of "CreateAndSavePerson johnDoe"] lower ems run
    by simp
qed

section \<open>Adding hamburger\<close>

lemma createAndSavePerson_Inr:
  assumes "createAndSavePerson obj st = (Inr p, st')"
  shows "validate p \<and> \<not> duplicateEmail p (docs st) \<and> oid p = nextId st
    \<and> docs st' = docs st @ [p] \<and> nextId st' = Suc (nextId st)
    \<and> favoriteFoods p = map trim (case pd_favoriteFoods obj of None \<Rightarrow> [] | Some fs \<Rightarrow> fs)"
  using assms
  by (auto simp: createAndSavePerson_def createOne_def newPerson_def saveNew_def Let_def
      split: if_splits option.splits sum.splits)

lemma find_append_fresh:
  "\<forall>d\<in>set ds. oid d \<noteq> oid p \<Longrightarrow> find (\<lambda>d. oid d = oid p) (ds @ [p]) = Some p"
  by (induction ds) auto

lemma replace_append_fresh:
  "\<forall>d\<in>set ds. oid d \<noteq> oid p \<Longrightarrow> oid p' = oid p \<Longrightarrow>
   map (\<lambda>d. if oid d = oid p' then p' else d) (ds @ [p]) = ds @ [p']"
  by (induction ds) auto

lemma trim_pizza_pasta_hamburger:
  "trim ''pizza'' = ''pizza'' \<and> trim ''pasta'' = ''pasta'' \<and> trim ''hamburger'' = ''hamburger''"
  by (simp add: trim_def isSpace_def)

text \<open>
  C4. \<^verbatim>\<open>addHamburgerToFavorites(id)\<close> is \<^verbatim>\<open>updatePersonClassic(id, {addToFavorites:
  ['hamburger']})\<close>. In a reachable collection, when a record with name John Doe, age 30
  and favorite foods pizza and pasta has just been inserted, the call on its id resolves
  with that record with the foods pizza, pasta, hamburger, in this order, and stores it
  in place of the record.
\<close>

theorem addHamburgerToFavorites_classic:
  "addHamburgerToFavorites personId st
     = updatePersonClassic personId (noUpdates\<lparr>u_addToFavorites := Some [''hamburger'']\<rparr>) st
   \<and> (\<forall>obj p st1.
         reachable st \<and> pd_name obj = Some ''John Doe'' \<and> pd_age obj = JNum 30
         \<and> pd_favoriteFoods obj = Some [''pizza'', ''pasta'']
         \<and> createAndSavePerson obj st = (Inr p, st1) \<longrightarrow>
           favoriteFoods p = [''pizza'', ''pasta'']
           \<and> addHamburgerToFavorites (Some (oid p)) st1 =
               (Inr (p\<lparr>favoriteFoods := [''pizza'', ''pasta'', ''hamburger'']\<rparr>),
                st1\<lparr>docs := docs st @ [p\<lparr>favoriteFoods := [''pizza'', ''pasta'', ''hamburger'']\<rparr>]\<rparr>))"
proof (intro conjI allI impI)
  show "addHamburgerToFavorites personId st
     = updatePersonClassic personId (noUpdates\<lparr>u_addToFavorites := Some [''hamburger'']\<rparr>) st"
    by (simp add: addHamburgerToFavorites_def noUpdates_def)
next
  fix obj :: personData and p st1
  assume h: "reachable st \<and> pd_name obj = Some ''John Doe'' \<and> pd_age obj = JNum 30
         \<and> pd_favoriteFoods obj = Some [''pizza'', ''pasta'']
         \<and> createAndSavePerson obj st = (Inr p, st1)"
  let ?p' = "p\<lparr>favoriteFoods := [''pizza'', ''pasta'', ''hamburger'']\<rparr>"
  have wf: "wellFormed st"
    using h reachable_wellFormed by blast
  have ins: "validate p" "\<not> duplicateEmail p (docs st)" "oid p = nextId st"
    "docs st1 = docs st @ [p]"
    and foods: "favoriteFoods p = [''pizza'', ''pasta'']"
    using h createAndSavePerson_Inr [of obj st p st1]
    by (simp_all add: trim_pizza_pasta_hamburger)
  show "favoriteFoods p = [''pizza'', ''pasta'']"
    by (rule foods)
  have fresh: "\<forall>d\<in>set (docs st). oid d \<noteq> oid p"
    using wellFormed_bound [OF wf] ins(3) by fastforce
  have loaded: "Model_findById (oid p) st1 = Some p"
    using find_append_fresh [OF fresh] ins(4) by (simp add: Model_findById_def)
  have app: "applyUpdates p
      \<lparr> u_name = None, u_age = JUndefined, u_email = Absent, u_isActive = None,
        u_addToFavorites = Some [''hamburger''] \<rparr> = Inr ?p'"
    using foods by (simp add: applyUpdates_def trim_pizza_pasta_hamburger)
  have valid: "validate ?p'"
    using ins(1) by (simp add: validate_def validateFoods_def)
  have nodup: "\<not> duplicateEmail ?p' (docs st1)"
    using ins(2) ins(4) by (auto simp: duplicateEmail_def list_ex_iff)
  have ex: "list_ex (\<lambda>d. oid d = oid ?p') (docs st1)"
    using ins(4) by (simp add: list_ex_iff)
  have repl: "map (\<lambda>d. if oid d = oid ?p' then ?p' else d) (docs st1) = docs st @ [?p']"
    using replace_append_fresh [OF fresh, of ?p'] ins(4) by simp
  show "addHamburgerToFavorites (Some (oid p)) st1 = (Inr ?p', st1\<lparr>docs := docs st @ [?p']\<rparr>)"
    using loaded app valid nodup ex repl
    by (simp add: addHamburgerToFavorites_def updatePersonClassic_def save_def)
qed

theorem addHamburgerToFavorites_classic_witness:
  "createAndSavePerson johnDoe emptyDb = (Inr johnStored, johnDb)
   \<and> addHamburgerToFavorites (Some 0) johnDb =
       (Inr (johnStored\<lparr>favoriteFoods := [''pizza'', ''pasta'', ''hamburger'']\<rparr>),
        johnDb\<lparr>docs := [johnStored\<lparr>favoriteFoods := [''pizza'', ''pasta'', ''hamburger'']\<rparr>]\<rparr>)"
proof -
  have h: "reachable emptyDb \<and> pd_name johnDoe = Some ''John Doe'' \<and> pd_age johnDoe = JNum 30
      \<and> pd_favoriteFoods johnDoe = Some [''pizza'', ''pasta'']
      \<and> createAndSavePerson johnDoe emptyDb = (Inr johnStored, johnDb)"
    using insert_johnDoe by (simp add: reachable.initial johnDoe_def)
  have "oid johnStored = 0" and "docs emptyDb = []"
    by (simp_all add: johnStored_def emptyDb_def)
  then show ?thesis
    using addHamburgerToFavorites_classic [of "Some 0" emptyDb] h insert_johnDoe
    by (metis append_Nil)
qed

end
